theory Spec2Isabelle
  imports Complex_Main
begin

section \<open>Strings, numbers and exceptions of the runtime\<close>

text \<open>
  A string of the program is a sequence of UTF-16 code units (\<open>length\<close> and
  \<open>charCodeAt\<close> count them). Text in the ASCII range is written with \<open>ascii\<close>.
\<close>

type_synonym jsstring = "nat list"

definition ascii :: "string \<Rightarrow> jsstring" where
  "ascii cs = map of_char cs"

text \<open>Decimal rendering of an integer, as a template literal renders an integral number.\<close>

fun natDigits :: "nat \<Rightarrow> jsstring" where
  "natDigits n = (if n < 10 then [48 + n] else natDigits (n div 10) @ [48 + n mod 10])"

declare natDigits.simps [simp del]

definition intToString :: "int \<Rightarrow> jsstring" where
  "intToString i = (if i < 0 then 45 # natDigits (nat (- i)) else natDigits (nat i))"

text \<open>
  The remainder operator \<open>%\<close> truncates towards zero: the result has the sign of the
  dividend.
\<close>

definition jsRem :: "int \<Rightarrow> int \<Rightarrow> int" where
  "jsRem a b = sgn a * (\<bar>a\<bar> mod \<bar>b\<bar>)"

text \<open>
  Every number of the program is an IEEE double. A number that holds an integer is
  modelled by that integer. Up to \<open>2 ^ 53\<close> in magnitude every integer is a double;
  beyond, the doubles are the multiples of \<open>spacing\<close>, which doubles with every further
  binary digit. A sum, difference or product of integers is the exact result rounded to
  the nearest double, a tie going to the even mantissa.
\<close>

fun spacing :: "nat \<Rightarrow> nat" where
  "spacing m = (if m < 2 ^ 53 then 1 else 2 * spacing (m div 2))"

declare spacing.simps [simp del]

definition roundToDouble :: "int \<Rightarrow> int" where
  "roundToDouble n =
    (let q = int (spacing (nat \<bar>n\<bar>)); d = n div q; m = n mod q
     in if 2 * m < q then d * q
        else if q < 2 * m then (d + 1) * q
        else if even d then d * q else (d + 1) * q)"

definition numAdd :: "int \<Rightarrow> int \<Rightarrow> int" where
  "numAdd a b = roundToDouble (a + b)"

definition numSub :: "int \<Rightarrow> int \<Rightarrow> int" where
  "numSub a b = roundToDouble (a - b)"

definition numMul :: "int \<Rightarrow> int \<Rightarrow> int" where
  "numMul a b = roundToDouble (a * b)"

text \<open>The conversion to a signed 32-bit integer that the bitwise operators apply.\<close>

definition toInt32 :: "int \<Rightarrow> int" where
  "toInt32 n = signed_take_bit 31 n"

text \<open>
  What a call can throw: a value that is not a locale table was used as one
  (\<open>NotATable\<close>), the date formatter rejected the locale tag (\<open>RangeError\<close>), or the
  first author was read from an empty list (\<open>NoAuthor\<close>).
\<close>

datatype error = NotATable | RangeError | NoAuthor

text \<open>
  Reading \<open>table[key]\<close> on an object literal: an own property, a property inherited from
  \<open>Object.prototype\<close> (some function or object, never one of the tables), or
  \<open>undefined\<close>.
\<close>

datatype 'a property = Own 'a | Inherited | Undefined

definition objectPrototypeKeys :: "jsstring list" where
  "objectPrototypeKeys =
    [ascii ''constructor'', ascii ''__proto__'', ascii ''hasOwnProperty'',
     ascii ''isPrototypeOf'', ascii ''propertyIsEnumerable'', ascii ''toLocaleString'',
     ascii ''toString'', ascii ''valueOf'', ascii ''__defineGetter__'',
     ascii ''__defineSetter__'', ascii ''__lookupGetter__'', ascii ''__lookupSetter__'']"

definition getProperty :: "(jsstring \<times> 'a) list \<Rightarrow> jsstring \<Rightarrow> 'a property" where
  "getProperty table key =
    (case map_of table key of
       Some v \<Rightarrow> Own v
     | None \<Rightarrow> if key \<in> set objectPrototypeKeys then Inherited else Undefined)"

text \<open>
  \<open>table[locale] || table['en-US']\<close>: an own table is kept, \<open>undefined\<close> gives way to
  the en-US table, and an inherited value is truthy, so it is kept and the next use of it
  as a table throws.
\<close>

definition localeTable :: "(jsstring \<times> 'a) list \<Rightarrow> jsstring \<Rightarrow> error + 'a" where
  "localeTable table loc =
    (case getProperty table loc of
       Own t \<Rightarrow> Inr t
     | Inherited \<Rightarrow> Inl NotATable
     | Undefined \<Rightarrow>
        (case getProperty table (ascii ''en-US'') of
           Own t \<Rightarrow> Inr t
         | Inherited \<Rightarrow> Inl NotATable
         | Undefined \<Rightarrow> Inl NotATable))"

section \<open>The random source and the other collaborators\<close>

text \<open>
  The faker library and the built-ins of the runtime are not part of the repository: they
  are parameters of the model. The state \<open>'s\<close> is the state of faker's generator.
  \<open>arrayIndex n\<close> is the position \<open>faker.helpers.arrayElement\<close> picks in an array of
  length \<open>n\<close>, \<open>weightedIndex ws\<close> the position \<open>weightedArrayElement\<close> picks for the
  weights \<open>ws\<close>. A date is its time value in milliseconds.
\<close>

record 's env =
  seed :: "int \<Rightarrow> 's \<Rightarrow> 's"
  numberInt :: "int \<Rightarrow> int \<Rightarrow> 's \<Rightarrow> int \<times> 's"
  numberFloat :: "'s \<Rightarrow> real \<times> 's"
  arrayIndex :: "nat \<Rightarrow> 's \<Rightarrow> nat \<times> 's"
  weightedIndex :: "nat list \<Rightarrow> 's \<Rightarrow> nat \<times> 's"
  wordAdjective :: "'s \<Rightarrow> jsstring \<times> 's"
  wordNoun :: "'s \<Rightarrow> jsstring \<times> 's"
  personFullName :: "'s \<Rightarrow> jsstring \<times> 's"
  companyName :: "'s \<Rightarrow> jsstring \<times> 's"
  internetUsername :: "'s \<Rightarrow> jsstring \<times> 's"
  dateBetween :: "jsstring \<Rightarrow> jsstring \<Rightarrow> 's \<Rightarrow> int \<times> 's"
  numberToString :: "real \<Rightarrow> jsstring"
  toUpperCase :: "jsstring \<Rightarrow> jsstring"
  getFullYear :: "int \<Rightarrow> int"
  toLocaleDateString :: "jsstring \<Rightarrow> int \<Rightarrow> error + jsstring"

definition arrayElement :: "'s env \<Rightarrow> 'a list \<Rightarrow> 's \<Rightarrow> 'a \<times> 's" where
  "arrayElement E array s = (let (i, s') = arrayIndex E (length array) s in (array ! i, s'))"

definition weightedArrayElement :: "'s env \<Rightarrow> (nat \<times> int) list \<Rightarrow> 's \<Rightarrow> int \<times> 's" where
  "weightedArrayElement E array s =
    (let (i, s') = weightedIndex E (map fst array) s in (snd (array ! i), s'))"

text \<open>The contracts of the random source that the properties below rest on.\<close>

definition reseeds :: "'s env \<Rightarrow> bool" where
  "reseeds E = (\<forall>n s s'. seed E n s = seed E n s')"

definition unitFloats :: "'s env \<Rightarrow> bool" where
  "unitFloats E = (\<forall>s. 0 \<le> fst (numberFloat E s) \<and> fst (numberFloat E s) < 1)"

definition picksInRange :: "'s env \<Rightarrow> bool" where
  "picksInRange E =
    ((\<forall>n s. 0 < n \<longrightarrow> fst (arrayIndex E n s) < n) \<and>
     (\<forall>ws s. ws \<noteq> [] \<longrightarrow> fst (weightedIndex E ws s) < length ws))"

definition intsInRange :: "'s env \<Rightarrow> bool" where
  "intsInRange E =
    (\<forall>lo hi s. lo \<le> hi \<longrightarrow> lo \<le> fst (numberInt E lo hi s) \<and> fst (numberInt E lo hi s) \<le> hi)"

definition formatsLocale :: "'s env \<Rightarrow> jsstring \<Rightarrow> bool" where
  "formatsLocale E loc = (\<forall>d. \<exists>str. toLocaleDateString E loc d = Inr str)"

section \<open>The data model\<close>

record Review =
  reviewer :: jsstring
  rating :: int
  text' :: jsstring
  date :: jsstring

record CoverImage =
  imageUrl :: jsstring
  coverTitle :: jsstring
  coverAuthor :: jsstring

record Book =
  index :: int
  isbn :: jsstring
  title :: jsstring
  authors :: "jsstring list"
  publisher :: jsstring
  year :: int
  likes :: int
  reviews :: "Review list"
  coverImage :: CoverImage

record BookRequest =
  page :: int
  reqLocale :: jsstring
  reqSeed :: int
  reqAvgLikes :: real
  reqAvgReviews :: real

text \<open>The fields of a \<open>BookDataGenerator\<close>.\<close>

record generator =
  locale' :: jsstring
  baseSeed :: int
  avgLikes :: real
  avgReviews :: real

datatype sentiment = positive | neutral | negative

section \<open>Seed derivation\<close>

text \<open>
  One round of the loop of \<open>hashParameters\<close>: \<open>hash << 5\<close> is a 32-bit shift, the
  subtraction and the addition stay below \<open>2 ^ 37\<close> in magnitude and are exact, and
  \<open>hash & hash\<close> converts back to 32 bits.
\<close>

fun hashLoop :: "int \<Rightarrow> jsstring \<Rightarrow> int" where
  "hashLoop hash [] = hash"
| "hashLoop hash (char # rest) =
     hashLoop (toInt32 ((toInt32 (hash * 2 ^ 5) - hash) + int char)) rest"

definition parameterString :: "'s env \<Rightarrow> generator \<Rightarrow> jsstring" where
  "parameterString E g =
     locale' g @ ascii ''-'' @ numberToString E (avgLikes g) @ ascii ''-''
       @ numberToString E (avgReviews g)"

definition hashParameters :: "'s env \<Rightarrow> generator \<Rightarrow> int" where
  "hashParameters E g = \<bar>hashLoop 0 (parameterString E g)\<bar>"

definition uniqueSeed :: "'s env \<Rightarrow> generator \<Rightarrow> int \<Rightarrow> int" where
  "uniqueSeed E g idx = numAdd (numAdd (baseSeed g) (hashParameters E g)) idx"

definition setSeedForIndex :: "'s env \<Rightarrow> generator \<Rightarrow> int \<Rightarrow> 's \<Rightarrow> 's" where
  "setSeedForIndex E g idx s = seed E (uniqueSeed E g idx) s"

section \<open>Field synthesis\<close>

definition generateISBN :: "'s env \<Rightarrow> 's \<Rightarrow> jsstring \<times> 's" where
  "generateISBN E s0 =
    (let (prefix, s1) = arrayElement E [ascii ''978'', ascii ''979''] s0;
         (group, s2) = numberInt E 0 9 s1;
         (publisher, s3) = numberInt E 10 999 s2;
         (title, s4) = numberInt E 10 999 s3;
         (checkDigit, s5) = numberInt E 0 9 s4
     in (prefix @ ascii ''-'' @ intToString group @ ascii ''-'' @ intToString publisher
           @ ascii ''-'' @ intToString title @ ascii ''-'' @ intToString checkDigit, s5))"

subsection \<open>Review text\<close>

definition enUS_positive :: "jsstring list" where
  "enUS_positive =
    [ascii ''An absolutely captivating read that kept me turning pages late into the night.'',
     ascii ''The character development is exceptional and the plot twists are brilliant.'',
     ascii ''A masterpiece of modern literature that will stay with you long after reading.'',
     ascii ''Compelling narrative with rich character development and unexpected turns.'',
     ascii ''This book changed my perspective on life in the most beautiful way.'',
     ascii ''Couldn't put it down! The pacing is perfect and the ending is satisfying.'',
     ascii ''Outstanding work! The author's writing style is both engaging and profound.'',
     ascii ''One of the best books I've read this year. Highly recommended!'']"

definition enUS_neutral :: "jsstring list" where
  "enUS_neutral =
    [ascii ''A decent read with some interesting ideas and solid writing.'',
     ascii ''The book has its moments but feels a bit predictable at times.'',
     ascii ''Well-written overall, though some parts could have been tighter.'',
     ascii ''An okay story that kept me engaged enough to finish it.'',
     ascii ''Good character development, but the plot felt somewhat familiar.'',
     ascii ''The writing is competent and the story is adequately told.'']"

definition enUS_negative :: "jsstring list" where
  "enUS_negative =
    [ascii ''Disappointing. The story felt rushed and characters were underdeveloped.'',
     ascii ''I struggled to get through this book. The pacing was very slow.'',
     ascii ''Not what I expected. The plot had potential but poor execution.'',
     ascii ''The writing style didn't work for me and I found it hard to connect.'',
     ascii ''Confusing storyline and characters that I couldn't relate to.'',
     ascii ''Had high hopes but this book fell short of expectations.'']"

definition deDE_positive :: "jsstring list" where
  "deDE_positive =
    [ascii ''Ein fesselndes Buch, das mich bis sp'' @ [228] @ ascii ''t in die Nacht wach gehalten hat.'',
     ascii ''Die Charakterentwicklung ist au'' @ [223] @ ascii ''ergew'' @ [246] @ ascii ''hnlich und die Wendungen brillant.'',
     ascii ''Ein Meisterwerk der modernen Literatur, das lange nachwirkt.'',
     ascii ''Hervorragende Erz'' @ [228] @ ascii ''hlung mit reicher Charakterentwicklung.'']"

definition deDE_neutral :: "jsstring list" where
  "deDE_neutral =
    [ascii ''Ein ordentliches Buch mit interessanten Ideen und solider Schreibweise.'',
     ascii ''Das Buch hat seine Momente, wirkt aber manchmal etwas vorhersagbar.'',
     ascii ''Gut geschrieben insgesamt, auch wenn einige Teile straffer h'' @ [228] @ ascii ''tten sein k'' @ [246] @ ascii ''nnen.'']"

definition deDE_negative :: "jsstring list" where
  "deDE_negative =
    [ascii ''Entt'' @ [228] @ ascii ''uschend. Die Geschichte wirkte gehetzt und die Charaktere unterentwickelt.'',
     ascii ''Ich hatte M'' @ [252] @ ascii ''he, durch dieses Buch zu kommen. Das Tempo war sehr langsam.'',
     ascii ''Nicht das, was ich erwartet hatte. Schlechte Umsetzung trotz Potenzial.'']"

definition jaJP_positive :: "jsstring list" where
  "jaJP_positive =
    [[22812, 36933, 12367, 12414, 12391, 12506, 12540, 12472, 12434, 12417, 12367, 12426, 32154, 12369, 12383, 12289, 32118, 23550, 12395, 39749, 21147, 30340, 12394, 35501, 12415, 29289, 12290],
     [12461, 12515, 12521, 12463, 12479, 12540, 38283, 30330, 12399, 20363, 22806, 30340, 12391, 12289, 12503, 12525, 12483, 12488, 12398, 12402, 12397, 12426, 12399, 32032, 26228, 12425, 12375, 12356, 12290],
     [35501, 12435, 12384, 24460, 12418, 38263, 12367, 24515, 12395, 27531, 12427, 29694, 20195, 25991, 23398, 12398, 20625, 20316, 12290]]"

definition jaJP_neutral :: "jsstring list" where
  "jaJP_neutral =
    [[33288, 21619, 28145, 12356, 12450, 12452, 12487, 12450, 12392, 22533, 23455, 12394, 25991, 31456, 12391, 12414, 12392, 12418, 12394, 35501, 12415, 29289, 12290],
     [12371, 12398, 26412, 12395, 12399, 12356, 12356, 30636, 38291, 12418, 12354, 12427, 12364, 12289, 26178, 12293, 20104, 28204, 21487, 33021, 12395, 24863, 12376, 12427, 12290]]"

definition jaJP_negative :: "jsstring list" where
  "jaJP_negative =
    [[12364, 12387, 12363, 12426, 12375, 12383, 12290, 12473, 12488, 12540, 12522, 12540, 12364, 24613, 12356, 12391, 12356, 12390, 12289, 12461, 12515, 12521, 12463, 12479, 12540, 12364, 26410, 30330, 36948, 12290],
     [12371, 12398, 26412, 12434, 35501, 12415, 32066, 12360, 12427, 12398, 12395, 33510, 21172, 12375, 12383, 12290, 12506, 12540, 12473, 12364, 38750, 24120, 12395, 36933, 12356, 12290]]"

text \<open>The object \<open>reviews\<close> of \<open>generateReviewText\<close>: per locale, one corpus per sentiment.\<close>

definition reviewsTable :: "(jsstring \<times> (sentiment \<Rightarrow> jsstring list)) list" where
  "reviewsTable =
    [(ascii ''en-US'',
        (\<lambda>t. case t of positive \<Rightarrow> enUS_positive | neutral \<Rightarrow> enUS_neutral
                  | negative \<Rightarrow> enUS_negative)),
     (ascii ''de-DE'',
        (\<lambda>t. case t of positive \<Rightarrow> deDE_positive | neutral \<Rightarrow> deDE_neutral
                  | negative \<Rightarrow> deDE_negative)),
     (ascii ''ja-JP'',
        (\<lambda>t. case t of positive \<Rightarrow> jaJP_positive | neutral \<Rightarrow> jaJP_neutral
                  | negative \<Rightarrow> jaJP_negative))]"

definition generateReviewText ::
  "'s env \<Rightarrow> generator \<Rightarrow> sentiment \<Rightarrow> 's \<Rightarrow> error + (jsstring \<times> 's)" where
  "generateReviewText E g t s =
    (case localeTable reviewsTable (locale' g) of
       Inl e \<Rightarrow> Inl e
     | Inr localeReviews \<Rightarrow> Inr (arrayElement E (localeReviews t) s))"

subsection \<open>Sentiment and rating\<close>

definition determineReviewSentiment :: "'s env \<Rightarrow> int \<Rightarrow> 's \<Rightarrow> sentiment \<times> 's" where
  "determineReviewSentiment E bookLikes s =
    (let likeRatio = min (real_of_int bookLikes / 10) 1;
         (random, s') = numberFloat E s
     in if likeRatio > 0.7 then
          (if random < 0.8 then (positive, s')
           else if random < 0.95 then (neutral, s')
           else (negative, s'))
        else if likeRatio > 0.4 then
          (if random < 0.5 then (positive, s')
           else if random < 0.85 then (neutral, s')
           else (negative, s'))
        else
          (if random < 0.2 then (positive, s')
           else if random < 0.6 then (neutral, s')
           else (negative, s')))"

text \<open>The weighted choices of \<open>generateRatingFromSentiment\<close>, as (weight, value).\<close>

fun ratingChoices :: "sentiment \<Rightarrow> (nat \<times> int) list" where
  "ratingChoices positive = [(60, 5), (30, 4), (10, 3)]"
| "ratingChoices neutral = [(50, 3), (25, 4), (25, 2)]"
| "ratingChoices negative = [(50, 1), (30, 2), (20, 3)]"

definition generateRatingFromSentiment :: "'s env \<Rightarrow> sentiment \<Rightarrow> 's \<Rightarrow> int \<times> 's" where
  "generateRatingFromSentiment E t s = weightedArrayElement E (ratingChoices t) s"

subsection \<open>Title\<close>

definition capitalizeFirst :: "'s env \<Rightarrow> jsstring \<Rightarrow> jsstring" where
  "capitalizeFirst E str = (case str of [] \<Rightarrow> str | c # rest \<Rightarrow> toUpperCase E [c] @ rest)"

text \<open>
  A title template is a literal with two capitalized word draws, evaluated left to right:
  the text before, the kind of the first word, the text between, the kind of the second
  word, the text after.
\<close>

datatype slot = adjective | noun

type_synonym template = "jsstring \<times> slot \<times> jsstring \<times> slot \<times> jsstring"

definition drawWord :: "'s env \<Rightarrow> slot \<Rightarrow> 's \<Rightarrow> jsstring \<times> 's" where
  "drawWord E k s =
    (let (w, s') = (case k of adjective \<Rightarrow> wordAdjective E s | noun \<Rightarrow> wordNoun E s)
     in (capitalizeFirst E w, s'))"

definition runTemplate :: "'s env \<Rightarrow> template \<Rightarrow> 's \<Rightarrow> jsstring \<times> 's" where
  "runTemplate E tpl s0 =
    (case tpl of (before, k1, between, k2, after) \<Rightarrow>
      (let (w1, s1) = drawWord E k1 s0;
           (w2, s2) = drawWord E k2 s1
       in (before @ w1 @ between @ w2 @ after, s2)))"

definition enUS_templates :: "template list" where
  "enUS_templates =
    [(ascii ''The '', adjective, ascii '' '', noun, []),
     ([], adjective, ascii '' '', noun, []),
     (ascii ''A '', adjective, ascii '' '', noun, []),
     ([], noun, ascii '' of '', noun, []),
     (ascii ''The '', noun, ascii '''s '', noun, [])]"

definition deDE_templates :: "template list" where
  "deDE_templates =
    [(ascii ''Der '', adjective, ascii '' '', noun, []),
     (ascii ''Die '', adjective, ascii ''e '', noun, []),
     (ascii ''Das '', adjective, ascii ''e '', noun, []),
     (ascii ''Im '', noun, ascii '' der '', noun, [])]"

definition jaJP_templates :: "template list" where
  "jaJP_templates =
    [([], noun, [12398], adjective, []),
     ([], adjective, [12394], noun, []),
     ([], noun, [12392], noun, [])]"

definition titleTemplates :: "(jsstring \<times> template list) list" where
  "titleTemplates =
    [(ascii ''en-US'', enUS_templates),
     (ascii ''de-DE'', deDE_templates),
     (ascii ''ja-JP'', jaJP_templates)]"

definition generateBookTitle :: "'s env \<Rightarrow> generator \<Rightarrow> 's \<Rightarrow> error + (jsstring \<times> 's)" where
  "generateBookTitle E g s =
    (case localeTable titleTemplates (locale' g) of
       Inl e \<Rightarrow> Inl e
     | Inr templates \<Rightarrow>
         (let (tpl, s') = arrayElement E templates s in Inr (runTemplate E tpl s')))"

subsection \<open>Counts and cover\<close>

definition generateExactCount :: "'s env \<Rightarrow> real \<Rightarrow> 's \<Rightarrow> int \<times> 's" where
  "generateExactCount E targetValue s =
    (if targetValue = 0 then (0, s)
     else
       (let integerPart = \<lfloor>targetValue\<rfloor>;
            fractionalPart = targetValue - real_of_int integerPart
        in if fractionalPart > 0 then
             (let (random, s') = numberFloat E s
              in (if random < fractionalPart then integerPart + 1 else integerPart, s'))
           else (integerPart, s)))"

definition imageId :: "'s env \<Rightarrow> generator \<Rightarrow> int \<Rightarrow> int" where
  "imageId E g idx = jsRem (numAdd (numAdd (baseSeed g) (hashParameters E g)) idx) 1000"

definition generateCoverImage ::
  "'s env \<Rightarrow> generator \<Rightarrow> jsstring \<Rightarrow> jsstring \<Rightarrow> int \<Rightarrow> CoverImage" where
  "generateCoverImage E g bookTitle firstAuthor idx =
    (let width = 400;
         height = 600;
         imageUrl = ascii ''https://picsum.photos/seed/'' @ intToString (imageId E g idx)
                      @ ascii ''/'' @ intToString width @ ascii ''/'' @ intToString height
     in \<lparr>imageUrl = imageUrl,
         coverTitle =
           (if length bookTitle > 25 then take 25 bookTitle @ ascii ''...'' else bookTitle),
         coverAuthor =
           (if length firstAuthor > 20 then take 20 firstAuthor @ ascii ''...''
            else firstAuthor)\<rparr>)"

section \<open>Record assembly\<close>

text \<open>The body of the author loop: every branch of the switch draws a full name.\<close>

definition nextAuthor :: "'s env \<Rightarrow> generator \<Rightarrow> 's \<Rightarrow> jsstring \<times> 's" where
  "nextAuthor E g s =
    (if locale' g = ascii ''de-DE'' then personFullName E s
     else if locale' g = ascii ''ja-JP'' then personFullName E s
     else personFullName E s)"

fun authorLoop :: "'s env \<Rightarrow> generator \<Rightarrow> nat \<Rightarrow> 's \<Rightarrow> jsstring list \<times> 's" where
  "authorLoop E g 0 s = ([], s)"
| "authorLoop E g (Suc n) s =
    (let (a, s1) = nextAuthor E g s;
         (rest, s2) = authorLoop E g n s1
     in (a # rest, s2))"

text \<open>The body of the review loop.\<close>

definition nextReview :: "'s env \<Rightarrow> generator \<Rightarrow> int \<Rightarrow> 's \<Rightarrow> error + (Review \<times> 's)" where
  "nextReview E g bookLikes s0 =
    (let (t, s1) = determineReviewSentiment E bookLikes s0;
         (rating, s2) = generateRatingFromSentiment E t s1
     in case generateReviewText E g t s2 of
          Inl e \<Rightarrow> Inl e
        | Inr (reviewText, s3) \<Rightarrow>
           (let (reviewer, s4) = internetUsername E s3;
                (d, s5) = dateBetween E (ascii ''2020-01-01'') (ascii ''2024-12-31'') s4
            in case toLocaleDateString E (locale' g) d of
                 Inl e \<Rightarrow> Inl e
               | Inr shown \<Rightarrow>
                   Inr (\<lparr>reviewer = reviewer, rating = rating, text' = reviewText,
                         date = shown\<rparr>, s5)))"

fun reviewLoop :: "'s env \<Rightarrow> generator \<Rightarrow> int \<Rightarrow> nat \<Rightarrow> 's \<Rightarrow> error + (Review list \<times> 's)" where
  "reviewLoop E g bookLikes 0 s = Inr ([], s)"
| "reviewLoop E g bookLikes (Suc n) s =
    (case nextReview E g bookLikes s of
       Inl e \<Rightarrow> Inl e
     | Inr (r, s1) \<Rightarrow>
        (case reviewLoop E g bookLikes n s1 of
           Inl e \<Rightarrow> Inl e
         | Inr (rest, s2) \<Rightarrow> Inr (r # rest, s2)))"

definition publisherTypes :: "jsstring list" where
  "publisherTypes =
    [ascii ''Press'', ascii ''Publishing'', ascii ''Books'', ascii ''Media'', ascii ''House'']"

definition generateBook :: "'s env \<Rightarrow> generator \<Rightarrow> int \<Rightarrow> 's \<Rightarrow> error + (Book \<times> 's)" where
  "generateBook E g idx s =
    (let s0 = setSeedForIndex E g idx s
     in case generateBookTitle E g s0 of
          Inl e \<Rightarrow> Inl e
        | Inr titled \<Rightarrow>
           (let (title, s1) = titled;
                (numAuthors, s2) = numberInt E 1 3 s1;
                (authors, s3) = authorLoop E g (nat numAuthors) s2;
                (company, s4) = companyName E s3;
                (ptype, s5) = arrayElement E publisherTypes s4;
                publisher = company @ ascii '' '' @ ptype;
                (d, s6) = dateBetween E (ascii ''1945-01-01'') (ascii ''2025-08-04'') s5;
                year = getFullYear E d;
                (likes, s7) = generateExactCount E (avgLikes g) s6;
                (numReviews, s8) = generateExactCount E (avgReviews g) s7
            in case reviewLoop E g likes (nat numReviews) s8 of
                 Inl e \<Rightarrow> Inl e
               | Inr reviewed \<Rightarrow>
                  (let (reviews, s9) = reviewed;
                       (isbn, s10) = generateISBN E s9
                   in case authors of
                        [] \<Rightarrow> Inl NoAuthor
                      | firstAuthor # others \<Rightarrow>
                          Inr (\<lparr>index = idx, isbn = isbn, title = title, authors = authors,
                                publisher = publisher, year = year, likes = likes,
                                reviews = reviews,
                                coverImage = generateCoverImage E g title firstAuthor idx\<rparr>,
                               s10))))"

section \<open>The request handler\<close>

text \<open>
  A parsed request body. The schema makes \<open>locale\<close> optional with default en-US; the
  other keys are required. The failures of the schema are named by key and rule.
\<close>

record RequestBody =
  bodyPage :: int
  bodyLocale :: "jsstring option"
  bodySeed :: int
  bodyAvgLikes :: real
  bodyAvgReviews :: real

datatype violation =
  PageMin | PageUnsafe | LocaleOnly | SeedUnsafe
  | AvgLikesMin | AvgLikesMax | AvgReviewsMin | AvgReviewsMax

definition supportedLocales :: "jsstring list" where
  "supportedLocales = [ascii ''en-US'', ascii ''de-DE'', ascii ''ja-JP'']"

definition safeInteger :: "int \<Rightarrow> bool" where
  "safeInteger n = (\<bar>n\<bar> \<le> 2 ^ 53 - 1)"

definition validate :: "RequestBody \<Rightarrow> violation + BookRequest" where
  "validate body =
    (let loc = (case bodyLocale body of None \<Rightarrow> ascii ''en-US'' | Some l \<Rightarrow> l)
     in if \<not> safeInteger (bodyPage body) then Inl PageUnsafe
        else if bodyPage body < 0 then Inl PageMin
        else if loc \<notin> set supportedLocales then Inl LocaleOnly
        else if \<not> safeInteger (bodySeed body) then Inl SeedUnsafe
        else if bodyAvgLikes body < 0 then Inl AvgLikesMin
        else if bodyAvgLikes body > 10 then Inl AvgLikesMax
        else if bodyAvgReviews body < 0 then Inl AvgReviewsMin
        else if bodyAvgReviews body > 20 then Inl AvgReviewsMax
        else Inr \<lparr>page = bodyPage body, reqLocale = loc, reqSeed = bodySeed body,
                  reqAvgLikes = bodyAvgLikes body, reqAvgReviews = bodyAvgReviews body\<rparr>)"

record Metadata =
  metaLocale :: jsstring
  metaSeed :: int
  metaAvgLikes :: real
  metaAvgReviews :: real
  generatedAt :: jsstring

record Page =
  books :: "Book list"
  pageNumber :: int
  hasMore :: bool
  metadata :: Metadata

datatype response = Ok Page | BadRequest violation | InternalServerError

definition pageCount :: "int \<Rightarrow> nat" where
  "pageCount p = (if p = 0 then 20 else 10)"

definition startIndex :: "int \<Rightarrow> int" where
  "startIndex p = (if p = 0 then 1 else numAdd (numAdd 20 (numMul (numSub p 1) 10)) 1)"

text \<open>
  The loop \<open>for (let i = 0; i < count; i++) books.push(generator.generateBook(startIndex + i))\<close>,
  from the counter value \<open>i\<close> with \<open>n\<close> rounds left.
\<close>

fun bookLoop ::
  "'s env \<Rightarrow> generator \<Rightarrow> int \<Rightarrow> nat \<Rightarrow> nat \<Rightarrow> 's \<Rightarrow> error + (Book list \<times> 's)" where
  "bookLoop E g start i 0 s = Inr ([], s)"
| "bookLoop E g start i (Suc n) s =
    (case generateBook E g (numAdd start (int i)) s of
       Inl e \<Rightarrow> Inl e
     | Inr (b, s1) \<Rightarrow>
        (case bookLoop E g start (Suc i) n s1 of
           Inl e \<Rightarrow> Inl e
         | Inr (rest, s2) \<Rightarrow> Inr (b # rest, s2)))"

text \<open>The constructor of \<open>BookDataGenerator\<close>, with all four arguments given.\<close>

definition newGenerator :: "jsstring \<Rightarrow> int \<Rightarrow> real \<Rightarrow> real \<Rightarrow> generator" where
  "newGenerator loc sd likesTarget reviewsTarget =
    \<lparr>locale' = loc, baseSeed = sd, avgLikes = likesTarget, avgReviews = reviewsTarget\<rparr>"

definition postBooks :: "'s env \<Rightarrow> jsstring \<Rightarrow> RequestBody \<Rightarrow> 's \<Rightarrow> response" where
  "postBooks E now body s =
    (case validate body of
       Inl v \<Rightarrow> BadRequest v
     | Inr req \<Rightarrow>
        (let g = newGenerator (reqLocale req) (reqSeed req) (reqAvgLikes req)
                   (reqAvgReviews req);
             count = pageCount (page req);
             start = startIndex (page req)
         in case bookLoop E g start 0 count s of
              Inl e \<Rightarrow> InternalServerError
            | Inr (bs, s') \<Rightarrow>
                Ok \<lparr>books = bs, pageNumber = page req, hasMore = (page req < 50),
                    metadata = \<lparr>metaLocale = reqLocale req, metaSeed = reqSeed req,
                                metaAvgLikes = reqAvgLikes req,
                                metaAvgReviews = reqAvgReviews req,
                                generatedAt = now\<rparr>\<rparr>))"

text \<open>The indices that the loop of the handler passes to \<open>generateBook\<close> for a page.\<close>

definition pageIndices :: "int \<Rightarrow> int list" where
  "pageIndices p = map (\<lambda>i. numAdd (startIndex p) (int i)) [0..<pageCount p]"

section \<open>A sample environment\<close>

text \<open>
  A small random source for closed instances of the theorems: the state is a counter,
  every draw advances it, and a seed resets it. Its date formatter rejects a locale tag
  that contains an underscore, as the runtime does for a malformed tag, and its number
  rendering is the decimal rendering of the integral part (the runtime's rendering on
  integral numbers).
\<close>

definition demoEnv :: "nat env" where
  "demoEnv =
    \<lparr>seed = (\<lambda>n s. nat \<bar>n\<bar> mod 1000),
     numberInt = (\<lambda>lo hi s. (lo + int s mod (hi - lo + 1), Suc s)),
     numberFloat = (\<lambda>s. (real (s mod 10) / 10, Suc s)),
     arrayIndex = (\<lambda>n s. (s mod n, Suc s)),
     weightedIndex = (\<lambda>ws s. (s mod length ws, Suc s)),
     wordAdjective = (\<lambda>s. (ascii ''quiet'', Suc s)),
     wordNoun = (\<lambda>s. (ascii ''river'', Suc s)),
     personFullName = (\<lambda>s. (ascii ''Ada Lovelace'', Suc s)),
     companyName = (\<lambda>s. (ascii ''Acme'', Suc s)),
     internetUsername = (\<lambda>s. (ascii ''reader'', Suc s)),
     dateBetween = (\<lambda>from to s. (int s, Suc s)),
     numberToString = (\<lambda>x. intToString \<lfloor>x\<rfloor>),
     toUpperCase = map (\<lambda>c. if 97 \<le> c \<and> c \<le> 122 then c - 32 else c),
     getFullYear = (\<lambda>d. 1970 + d div 31557600000),
     toLocaleDateString =
       (\<lambda>loc d. if 95 \<in> set loc then Inl RangeError else Inr (intToString d))\<rparr>"

text \<open>The count that \<open>generateExactCount\<close> returns when the uniform draw is \<open>u\<close>.\<close>

definition fixedDraw :: "real \<Rightarrow> nat env" where
  "fixedDraw u = demoEnv\<lparr>numberFloat := (\<lambda>s. (u, Suc s))\<rparr>"

definition countAt :: "real \<Rightarrow> real \<Rightarrow> int" where
  "countAt target u = fst (generateExactCount (fixedDraw u) target 0)"

text \<open>The mean of an integer outcome over the \<open>N\<close> equally likely draws \<open>k / N\<close>.\<close>

definition gridMean :: "nat \<Rightarrow> (real \<Rightarrow> int) \<Rightarrow> real" where
  "gridMean N h = (\<Sum>k<N. real_of_int (h (real k / real N))) / real N"

section \<open>Reference definitions for the stated properties\<close>

text \<open>
  The sentiment model as the specification words it: the popularity ratio, its three
  bands, the cumulative thresholds of each band, and the rating shares in percent.
\<close>

datatype band = high | middle | low

definition popularityRatio :: "int \<Rightarrow> real" where
  "popularityRatio score = min (real_of_int score / 10) 1"

definition bandOf :: "real \<Rightarrow> band" where
  "bandOf r = (if r > 0.7 then high else if 0.4 < r \<and> r \<le> 0.7 then middle else low)"

fun thresholds :: "band \<Rightarrow> (real \<times> sentiment) list" where
  "thresholds high = [(0.8, positive), (0.95, neutral), (1.0, negative)]"
| "thresholds middle = [(0.5, positive), (0.85, neutral), (1.0, negative)]"
| "thresholds low = [(0.2, positive), (0.6, neutral), (1.0, negative)]"

fun sampleCumulative :: "(real \<times> 'a) list \<Rightarrow> real \<Rightarrow> 'a option" where
  "sampleCumulative [] u = None"
| "sampleCumulative ((c, v) # rest) u = (if u < c then Some v else sampleCumulative rest u)"

fun ratingPercent :: "sentiment \<Rightarrow> (int \<times> nat) list" where
  "ratingPercent positive = [(5, 60), (4, 30), (3, 10)]"
| "ratingPercent neutral = [(3, 50), (4, 25), (2, 25)]"
| "ratingPercent negative = [(1, 50), (2, 30), (3, 20)]"

text \<open>The corpus a review text is drawn from, for a locale string and a sentiment.\<close>

definition corpusFor :: "jsstring \<Rightarrow> sentiment \<Rightarrow> jsstring list" where
  "corpusFor loc t = (case localeTable reviewsTable loc of Inl e \<Rightarrow> [] | Inr table \<Rightarrow> table t)"

text \<open>
  A review is sampled jointly from the state \<open>s\<close> of the random source when one
  sentiment is sampled there for the likes of the book, the rating of the review is the
  weighted pick over the rating table of that sentiment, and the text of the review is
  the pick, made next, from the corpus of that same sentiment, which is in the corpus of
  no other sentiment.
\<close>

definition sampledJointly :: "'s env \<Rightarrow> generator \<Rightarrow> int \<Rightarrow> 's \<Rightarrow> Review \<Rightarrow> bool" where
  "sampledJointly E g bookLikes s r =
    (let (t, s1) = determineReviewSentiment E bookLikes s;
         (v, s2) = weightedArrayElement E (ratingChoices t) s1;
         (body, s3) = arrayElement E (corpusFor (locale' g) t) s2
     in rating r = v \<and> text' r = body \<and>
        v \<in> snd ` set (ratingChoices t) \<and>
        body \<in> set (corpusFor (locale' g) t) \<and>
        list_all (\<lambda>t'. t' = t \<or> body \<notin> set (corpusFor (locale' g) t'))
          [positive, neutral, negative])"

section \<open>Double arithmetic on integers\<close>

lemma spacing_small: "m < 2 ^ 53 \<Longrightarrow> spacing m = 1"
  by (subst spacing.simps) simp

lemma spacing_next: "2 ^ 53 \<le> m \<Longrightarrow> m < 2 ^ 54 \<Longrightarrow> spacing m = 2"
  by (subst spacing.simps) (simp add: spacing_small)

lemma roundToDouble_exact:
  assumes "\<bar>n\<bar> \<le> 2 ^ 53"
  shows "roundToDouble n = n"
proof (cases "\<bar>n\<bar> < 2 ^ 53")
  case True
  then have "nat \<bar>n\<bar> < 2 ^ 53" by simp
  then show ?thesis by (simp add: roundToDouble_def spacing_small)
next
  case False
  with assms have n: "\<bar>n\<bar> = 2 ^ 53" by simp
  then have "nat \<bar>n\<bar> = 2 ^ 53" by simp
  then have "spacing (nat \<bar>n\<bar>) = 2" by (simp add: spacing_next)
  moreover from n have "n = 2 ^ 53 \<or> n = - (2 ^ 53)" by linarith
  ultimately show ?thesis by (auto simp: roundToDouble_def Let_def)
qed

lemma numAdd_exact: "\<bar>a + b\<bar> \<le> 2 ^ 53 \<Longrightarrow> numAdd a b = a + b"
  by (simp add: numAdd_def roundToDouble_exact)

lemma numSub_exact: "\<bar>a - b\<bar> \<le> 2 ^ 53 \<Longrightarrow> numSub a b = a - b"
  by (simp add: numSub_def roundToDouble_exact)

lemma numMul_exact: "\<bar>a * b\<bar> \<le> 2 ^ 53 \<Longrightarrow> numMul a b = a * b"
  by (simp add: numMul_def roundToDouble_exact)

section \<open>Facts about the sample environment\<close>

lemma newGenerator_sel:
  "locale' (newGenerator loc sd a r) = loc" "baseSeed (newGenerator loc sd a r) = sd"
  "avgLikes (newGenerator loc sd a r) = a" "avgReviews (newGenerator loc sd a r) = r"
  by (simp_all add: newGenerator_def)

lemma demo_reseeds: "reseeds demoEnv"
  by (simp add: reseeds_def demoEnv_def)

lemma demo_unitFloats: "unitFloats demoEnv"
  by (simp add: unitFloats_def demoEnv_def)

lemma demo_picksInRange: "picksInRange demoEnv"
  by (simp add: picksInRange_def demoEnv_def)

lemma demo_intsInRange: "intsInRange demoEnv"
proof -
  have "lo \<le> hi \<Longrightarrow> lo + int s mod (hi - lo + 1) \<le> hi" for lo hi :: int and s :: nat
    using pos_mod_bound [of "hi - lo + 1" "int s"] by linarith
  then show ?thesis
    by (simp add: intsInRange_def demoEnv_def)
qed

lemma demo_formats: "95 \<notin> set loc \<Longrightarrow> formatsLocale demoEnv loc"
  by (simp add: formatsLocale_def demoEnv_def)

lemma supported_cases:
  "loc \<in> set supportedLocales \<Longrightarrow>
     loc = ascii ''en-US'' \<or> loc = ascii ''de-DE'' \<or> loc = ascii ''ja-JP''"
  by (auto simp: supportedLocales_def)

lemma demo_supported_tables:
  assumes "loc \<in> set supportedLocales"
  shows "formatsLocale demoEnv loc"
  using supported_cases [OF assms] by (auto intro!: demo_formats simp: ascii_def)

lemma demo_hash: "hashLoop 0 (ascii ''en-US-5-2'') = 65817231"
  by (simp add: ascii_def toInt32_def)

lemma demo_parameterString:
  "parameterString demoEnv (newGenerator (ascii ''en-US'') sd 5 2) = ascii ''en-US-5-2''"
proof -
  have "intToString 5 = ascii ''5''" "intToString 2 = ascii ''2''" by code_simp+
  then show ?thesis
    by (simp add: parameterString_def newGenerator_sel demoEnv_def ascii_def)
qed

lemma demo_hashParameters:
  "hashParameters demoEnv (newGenerator (ascii ''en-US'') sd 5 2) = 65817231"
  by (simp add: hashParameters_def demo_parameterString demo_hash)

lemma demo_parameterString_any:
  "parameterString demoEnv (newGenerator loc sd 5 2) = loc @ ascii ''-5-2''"
proof -
  have "intToString 5 = ascii ''5''" "intToString 2 = ascii ''2''" by code_simp+
  then show ?thesis
    by (simp add: parameterString_def newGenerator_sel demoEnv_def ascii_def)
qed

lemma demo_validate:
  "0 \<le> p \<Longrightarrow> p \<le> 2 ^ 53 - 1 \<Longrightarrow>
   validate \<lparr>bodyPage = p, bodyLocale = None, bodySeed = 42, bodyAvgLikes = 5,
      bodyAvgReviews = 2\<rparr>
    = Inr \<lparr>page = p, reqLocale = ascii ''en-US'', reqSeed = 42, reqAvgLikes = 5,
        reqAvgReviews = 2\<rparr>"
  by (simp add: validate_def safeInteger_def supportedLocales_def)

section \<open>Records are generated without failure for a supported locale\<close>

lemma localeTable_titles_supported:
  "loc \<in> set supportedLocales \<Longrightarrow> \<exists>t. localeTable titleTemplates loc = Inr t"
  by (auto dest!: supported_cases simp: localeTable_def getProperty_def titleTemplates_def ascii_def)

lemma localeTable_reviews_supported:
  "loc \<in> set supportedLocales \<Longrightarrow> \<exists>t. localeTable reviewsTable loc = Inr t"
  by (auto dest!: supported_cases simp: localeTable_def getProperty_def reviewsTable_def ascii_def)

lemma generateBookTitle_succeeds:
  assumes "\<exists>t. localeTable titleTemplates (locale' g) = Inr t"
  shows "\<exists>r. generateBookTitle E g s = Inr r"
  using assms by (auto simp: generateBookTitle_def Let_def split: prod.splits)

lemma nextReview_succeeds:
  assumes "\<exists>t. localeTable reviewsTable (locale' g) = Inr t" and "formatsLocale E (locale' g)"
  shows "\<exists>r. nextReview E g n s = Inr r"
proof -
  obtain t s1 where a: "determineReviewSentiment E n s = (t, s1)" by (cases "determineReviewSentiment E n s")
  obtain rt s2 where b: "generateRatingFromSentiment E t s1 = (rt, s2)" by (cases "generateRatingFromSentiment E t s1")
  from assms(1) obtain body s3 where c: "generateReviewText E g t s2 = Inr (body, s3)"
    by (auto simp: generateReviewText_def) (metis surj_pair)
  obtain u s4 where d: "internetUsername E s3 = (u, s4)" by (cases "internetUsername E s3")
  obtain dt s5 where e: "dateBetween E (ascii ''2020-01-01'') (ascii ''2024-12-31'') s4 = (dt, s5)"
    by (cases "dateBetween E (ascii ''2020-01-01'') (ascii ''2024-12-31'') s4")
  from assms(2) obtain str where f: "toLocaleDateString E (locale' g) dt = Inr str"
    unfolding formatsLocale_def by blast
  show ?thesis by (simp add: nextReview_def a b c d e f)
qed

lemma reviewLoop_succeeds:
  assumes "\<exists>t. localeTable reviewsTable (locale' g) = Inr t" and "formatsLocale E (locale' g)"
  shows "\<exists>r. reviewLoop E g k n s = Inr r"
proof (induction n arbitrary: s)
  case 0
  show ?case by simp
next
  case (Suc n)
  from nextReview_succeeds [OF assms] obtain r s1 where a: "nextReview E g k s = Inr (r, s1)"
    by (metis surj_pair)
  from Suc [of s1] obtain rest s2 where b: "reviewLoop E g k n s1 = Inr (rest, s2)"
    by (metis surj_pair)
  show ?case by (simp add: a b)
qed

lemma authorLoop_length: "length (fst (authorLoop E g n s)) = n"
proof (induction n arbitrary: s)
  case 0
  show ?case by simp
next
  case (Suc n)
  obtain a s1 where a: "nextAuthor E g s = (a, s1)" by (cases "nextAuthor E g s")
  obtain rest s2 where b: "authorLoop E g n s1 = (rest, s2)" by (cases "authorLoop E g n s1")
  from Suc [of s1] b have "length rest = n" by simp
  then show ?case by (simp add: a b)
qed

lemma generateBook_succeeds:
  assumes ints: "intsInRange E"
    and tt: "\<exists>t. localeTable titleTemplates (locale' g) = Inr t"
    and rt: "\<exists>t. localeTable reviewsTable (locale' g) = Inr t"
    and fmt: "formatsLocale E (locale' g)"
  shows "\<exists>b s'. generateBook E g idx s = Inr (b, s') \<and> index b = idx"
proof -
  define s0 where "s0 = setSeedForIndex E g idx s"
  from generateBookTitle_succeeds [OF tt] obtain ttl s1 where
    a: "generateBookTitle E g s0 = Inr (ttl, s1)" by (metis surj_pair)
  obtain na s2 where b: "numberInt E 1 3 s1 = (na, s2)" by (cases "numberInt E 1 3 s1")
  from ints b have na: "1 \<le> na" unfolding intsInRange_def by (metis fst_conv one_le_numeral)
  obtain as s3 where c: "authorLoop E g (nat na) s2 = (as, s3)" by (cases "authorLoop E g (nat na) s2")
  from authorLoop_length [of E g "nat na" s2] c na have "length as = nat na" by simp
  with na obtain a1 ar where as: "as = a1 # ar" by (cases as) auto
  obtain co s4 where d: "companyName E s3 = (co, s4)" by (cases "companyName E s3")
  obtain pt s5 where e: "arrayElement E publisherTypes s4 = (pt, s5)" by (cases "arrayElement E publisherTypes s4")
  obtain dt s6 where f: "dateBetween E (ascii ''1945-01-01'') (ascii ''2025-08-04'') s5 = (dt, s6)"
    by (cases "dateBetween E (ascii ''1945-01-01'') (ascii ''2025-08-04'') s5")
  obtain lk s7 where h: "generateExactCount E (avgLikes g) s6 = (lk, s7)" by (cases "generateExactCount E (avgLikes g) s6")
  obtain nr s8 where i: "generateExactCount E (avgReviews g) s7 = (nr, s8)" by (cases "generateExactCount E (avgReviews g) s7")
  from reviewLoop_succeeds [OF rt fmt] obtain rs s9 where
    j: "reviewLoop E g lk (nat nr) s8 = Inr (rs, s9)" by (metis surj_pair)
  obtain ib s10 where k: "generateISBN E s9 = (ib, s10)" by (cases "generateISBN E s9")
  show ?thesis
    unfolding generateBook_def s0_def [symmetric]
    by (simp add: a b c as d e f h i j k)
qed

lemma bookLoop_succeeds:
  assumes ints: "intsInRange E"
    and tt: "\<exists>t. localeTable titleTemplates (locale' g) = Inr t"
    and rt: "\<exists>t. localeTable reviewsTable (locale' g) = Inr t"
    and fmt: "formatsLocale E (locale' g)"
  shows "\<exists>bs s'. bookLoop E g start i n s = Inr (bs, s') \<and>
           map index bs = map (\<lambda>k. numAdd start (int k)) [i..<i + n]"
proof (induction n arbitrary: i s)
  case 0
  show ?case by simp
next
  case (Suc n)
  from generateBook_succeeds [OF assms] obtain b s1 where
    a: "generateBook E g (numAdd start (int i)) s = Inr (b, s1)" and
    ib: "index b = numAdd start (int i)"
    by blast
  from Suc [of "Suc i" s1] obtain rest s2 where
    b: "bookLoop E g start (Suc i) n s1 = Inr (rest, s2)" and
    ir: "map index rest = map (\<lambda>k. numAdd start (int k)) [Suc i..<Suc i + n]"
    by blast
  have "[i..<i + Suc n] = i # [Suc i..<Suc i + n]"
    by (simp add: upt_rec)
  with a b ib ir show ?case by simp
qed

lemma bookLoop_length:
  "bookLoop E g start i n s = Inr (bs, sn) \<Longrightarrow> length bs = n"
  by (induction n arbitrary: i s bs) (auto split: sum.splits)

section \<open>Determinism and index independence\<close>

lemma setSeed_any: "reseeds E \<Longrightarrow> setSeedForIndex E g idx s = setSeedForIndex E g idx s'"
  unfolding reseeds_def setSeedForIndex_def by blast

lemma generateBook_any_state:
  assumes "reseeds E"
  shows "generateBook E g idx s = generateBook E g idx s'"
  unfolding generateBook_def using setSeed_any [OF assms, of g idx s s'] by simp

lemma bookLoop_nth:
  assumes "reseeds E"
  shows "bookLoop E g start i n s = Inr (bs, sn) \<Longrightarrow> k < n \<Longrightarrow>
         map_sum id fst (generateBook E g (numAdd start (int (i + k))) s') = Inr (bs ! k)"
proof (induction n arbitrary: i s bs k)
  case 0
  then show ?case by simp
next
  case (Suc n)
  from Suc.prems(1) obtain b s1 rest where
    b: "generateBook E g (numAdd start (int i)) s = Inr (b, s1)" and
    rest: "bookLoop E g start (Suc i) n s1 = Inr (rest, sn)" and
    bs: "bs = b # rest"
    by (auto split: sum.splits)
  show ?case
  proof (cases k)
    case 0
    have "generateBook E g (numAdd start (int i)) s' = Inr (b, s1)"
      using generateBook_any_state [OF assms, of g "numAdd start (int i)" s' s] b by simp
    with 0 bs show ?thesis by simp
  next
    case (Suc j)
    with Suc.prems(2) have "j < n" by simp
    from Suc.IH [OF rest this] Suc bs show ?thesis by simp
  qed
qed

text \<open>
  Claim C1. When seeding resets the random source, \<open>generateBook\<close> at an index returns
  the same result (record and final state) from every incoming state of the source, so
  what was generated before has no influence; and every record that the page loop
  produces in sequence is the record that \<open>generateBook\<close> produces for that index on its
  own, from any state.
\<close>

theorem generateBook_independent_of_history:
  assumes "reseeds E"
  shows "generateBook E g idx s = generateBook E g idx s' \<and>
         (\<forall>start i n bs sn k. bookLoop E g start i n s = Inr (bs, sn) \<and> k < n \<longrightarrow>
            map_sum id fst (generateBook E g (numAdd start (int (i + k))) s') = Inr (bs ! k))"
  using generateBook_any_state [OF assms] bookLoop_nth [OF assms] by blast

theorem generateBook_independent_of_history_witness:
  "generateBook demoEnv (newGenerator (ascii ''en-US'') 42 5 2) 7 0
     = generateBook demoEnv (newGenerator (ascii ''en-US'') 42 5 2) 7 123 \<and>
   (\<exists>bs sn. bookLoop demoEnv (newGenerator (ascii ''en-US'') 42 5 2) 21 0 10 0 = Inr (bs, sn) \<and>
      map_sum id fst (generateBook demoEnv (newGenerator (ascii ''en-US'') 42 5 2) 24 99)
        = Inr (bs ! 3))"
proof -
  let ?g = "newGenerator (ascii ''en-US'') 42 5 2"
  have sup: "locale' ?g \<in> set supportedLocales"
    by (simp add: newGenerator_sel supportedLocales_def)
  from bookLoop_succeeds [OF demo_intsInRange localeTable_titles_supported [OF sup]
      localeTable_reviews_supported [OF sup] demo_supported_tables [OF sup], of 21 0 10 0]
  obtain bs sn where b: "bookLoop demoEnv ?g 21 0 10 0 = Inr (bs, sn)" by blast
  from generateBook_independent_of_history [OF demo_reseeds, of ?g 21 0 99]
  have "bookLoop demoEnv ?g 21 0 10 0 = Inr (bs, sn) \<and> (3::nat) < 10 \<longrightarrow>
      map_sum id fst (generateBook demoEnv ?g (numAdd 21 (int (0 + 3))) 99) = Inr (bs ! 3)"
    by blast
  moreover have "numAdd 21 (int (0 + 3)) = 24"
    using numAdd_exact [of 21 3] by simp
  ultimately have c: "map_sum id fst (generateBook demoEnv ?g 24 99) = Inr (bs ! 3)"
    using b by simp
  from generateBook_independent_of_history [OF demo_reseeds, of ?g 7 0 123]
  have "generateBook demoEnv ?g 7 0 = generateBook demoEnv ?g 7 123" by blast
  with b c show ?thesis by blast
qed

section \<open>Pagination\<close>

lemma map_offset_upto: "map (\<lambda>k. a + int k) [0..<n] = [a..a + int n - 1]"
proof (induction n)
  case 0
  show ?case by simp
next
  case (Suc n)
  have "[a..a + int (Suc n) - 1] = [a..a + int n - 1] @ [a + int n]"
    using upto_rec2 [of a "a + int n"] by simp
  with Suc show ?case by simp
qed

lemma map_numAdd_upto:
  assumes "0 \<le> a" and "a + int n - 1 \<le> 2 ^ 53"
  shows "map (\<lambda>i. numAdd a (int i)) [0..<n] = [a..a + int n - 1]"
proof -
  have "numAdd a (int i) = a + int i" if "i \<in> set [0..<n]" for i
  proof (rule numAdd_exact)
    from that have "int i < int n" by simp
    with assms show "\<bar>a + int i\<bar> \<le> 2 ^ 53" by simp
  qed
  then have "map (\<lambda>i. numAdd a (int i)) [0..<n] = map (\<lambda>i. a + int i) [0..<n]"
    by (intro map_cong) simp_all
  then show ?thesis by (simp add: map_offset_upto)
qed

lemma startIndex_exact:
  assumes "1 \<le> p" and "10 * p + 20 \<le> 2 ^ 53"
  shows "startIndex p = 10 * p + 11"
proof -
  have a: "numSub p 1 = p - 1"
    using assms by (intro numSub_exact) simp
  have b: "numMul (p - 1) 10 = 10 * p - 10"
    using numMul_exact [of "p - 1" 10] assms by simp
  have c: "numAdd 20 (10 * p - 10) = 10 * p + 10"
    using numAdd_exact [of 20 "10 * p - 10"] assms by simp
  have d: "numAdd (10 * p + 10) 1 = 10 * p + 11"
    using numAdd_exact [of "10 * p + 10" 1] assms by simp
  from assms(1) show ?thesis by (simp add: startIndex_def a b c d)
qed

lemma pageIndices_zero: "pageIndices 0 = [1..20]"
  using map_numAdd_upto [of 1 20] by (simp add: pageIndices_def startIndex_def pageCount_def)

lemma pageIndices_pos:
  assumes "1 \<le> p" and "10 * p + 20 \<le> 2 ^ 53"
  shows "pageIndices p = [10 * p + 11..10 * p + 20]"
proof -
  from assms have pc: "pageCount p = 10" by (simp add: pageCount_def)
  have a: "0 \<le> 10 * p + 11" using assms by simp
  have b: "10 * p + 11 + int 10 - 1 \<le> 2 ^ 53" using assms by simp
  have "pageIndices p = [10 * p + 11..10 * p + 11 + int 10 - 1]"
    unfolding pageIndices_def startIndex_exact [OF assms] pc
    by (rule map_numAdd_upto [OF a b])
  also have "10 * p + 11 + int 10 - 1 = 10 * p + 20" by simp
  finally show ?thesis .
qed

lemma concat_pages:
  "10 * int k + 20 \<le> 2 ^ 53 \<Longrightarrow> concat (map pageIndices [0..int k]) = [1..20 + 10 * int k]"
proof (induction k)
  case 0
  show ?case by (simp add: pageIndices_zero)
next
  case (Suc k)
  from Suc.prems have small: "10 * int k + 20 \<le> 2 ^ 53" by simp
  have "[0..int (Suc k)] = [0..int k] @ [int k + 1]"
    using upto_rec2 [of 0 "int k + 1"] by (simp add: add.commute)
  moreover have "[1..20 + 10 * int (Suc k)]
      = [1..20 + 10 * int k] @ [10 * (int k + 1) + 11..10 * (int k + 1) + 20]"
    using upto_split1 [of 1 "10 * int k + 21" "10 * int k + 30"] by (simp add: algebra_simps)
  moreover have "pageIndices (int k + 1) = [10 * (int k + 1) + 11..10 * (int k + 1) + 20]"
    using Suc.prems by (intro pageIndices_pos) simp_all
  ultimately show ?case using Suc.IH [OF small] by simp
qed

lemma pageIndices_rounded:
  "pageIndices 900719925474099 =
    [9007199254741000, 9007199254741000, 9007199254741002, 9007199254741004,
     9007199254741004, 9007199254741004, 9007199254741006, 9007199254741008,
     9007199254741008, 9007199254741008]"
proof -
  have "startIndex 900719925474099 = 9007199254741000"
    by (simp add: startIndex_def numAdd_def numSub_def numMul_def roundToDouble_def
        spacing_small spacing_next)
  then show ?thesis
    by (simp add: pageIndices_def pageCount_def upt_rec numAdd_def roundToDouble_def spacing_next)
qed

lemma validate_Inr:
  assumes "validate body = Inr req"
  shows "reqLocale req \<in> set supportedLocales" and "0 \<le> page req" and "page req = bodyPage body"
  using assms by (auto simp: validate_def Let_def split: if_splits)

lemma postBooks_Ok:
  assumes v: "validate body = Inr req"
    and ints: "intsInRange E"
    and fmt: "formatsLocale E (reqLocale req)"
  shows "\<exists>pg s'. postBooks E now body s = Ok pg \<and>
           bookLoop E (newGenerator (reqLocale req) (reqSeed req) (reqAvgLikes req)
                  (reqAvgReviews req))
               (startIndex (page req)) 0 (pageCount (page req)) s = Inr (books pg, s') \<and>
           map index (books pg) = pageIndices (page req) \<and>
           hasMore pg = (page req < 50)"
proof -
  let ?g = "newGenerator (reqLocale req) (reqSeed req) (reqAvgLikes req) (reqAvgReviews req)"
  have sup: "locale' ?g \<in> set supportedLocales"
    using validate_Inr(1) [OF v] by (simp add: newGenerator_def)
  have fmt': "formatsLocale E (locale' ?g)" using fmt by (simp add: newGenerator_def)
  from bookLoop_succeeds [OF ints localeTable_titles_supported [OF sup]
      localeTable_reviews_supported [OF sup] fmt', of "startIndex (page req)" 0 "pageCount (page req)" s]
  obtain bs s' where
    a: "bookLoop E ?g (startIndex (page req)) 0 (pageCount (page req)) s = Inr (bs, s')" and
    b: "map index bs = map (\<lambda>k. numAdd (startIndex (page req)) (int k))
          [0..<pageCount (page req)]"
    by auto
  show ?thesis
    by (simp add: postBooks_def v Let_def a b pageIndices_def)
qed

text \<open>
  Claim C2, as amended. For a request that passes validation, the handler answers with
  a page whose records carry the indices the loop computed, in order; page 0 has 20
  records with indices 1 to 20 and every page \<open>k \<ge> 1\<close> has 10 records; \<open>hasMore\<close> is
  false exactly when the page number is at least 50. As long as \<open>10 * k + 20 \<le> 2 ^ 53\<close>,
  so that the index arithmetic is exact, page \<open>k \<ge> 1\<close> starts at
  \<open>20 + (k - 1) * 10 + 1\<close> and carries the ten indices from there, and the indices of
  pages 0 to \<open>k\<close> concatenated are exactly \<open>1..20 + 10 * k\<close>.
\<close>

theorem pagination_contiguous:
  assumes "validate body = Inr req" and "intsInRange E" and "formatsLocale E (reqLocale req)"
  shows "(\<exists>pg. postBooks E now body s = Ok pg \<and>
            map index (books pg) = pageIndices (page req) \<and>
            length (books pg) = pageCount (page req) \<and>
            (\<not> hasMore pg) = (50 \<le> page req)) \<and>
         0 \<le> page req \<and>
         pageCount 0 = 20 \<and> pageIndices 0 = [1..20] \<and>
         (1 \<le> page req \<longrightarrow> pageCount (page req) = 10) \<and>
         (1 \<le> page req \<and> 10 * page req + 20 \<le> 2 ^ 53 \<longrightarrow>
            startIndex (page req) = 20 + (page req - 1) * 10 + 1 \<and>
            pageIndices (page req)
              = [20 + (page req - 1) * 10 + 1..20 + (page req - 1) * 10 + 10]) \<and>
         (\<forall>k. 10 * int k + 20 \<le> 2 ^ 53 \<longrightarrow>
            concat (map pageIndices [0..int k]) = [1..20 + 10 * int k])"
proof -
  from postBooks_Ok [OF assms, of now s] obtain pg where
    a: "postBooks E now body s = Ok pg" and
    b: "map index (books pg) = pageIndices (page req)" and
    c: "hasMore pg = (page req < 50)" by blast
  from b have "length (books pg) = length (pageIndices (page req))"
    by (metis length_map)
  then have d: "length (books pg) = pageCount (page req)" by (simp add: pageIndices_def)
  have e: "(\<not> hasMore pg) = (50 \<le> page req)" using c by auto
  have f: "1 \<le> page req \<and> 10 * page req + 20 \<le> 2 ^ 53 \<longrightarrow>
            startIndex (page req) = 20 + (page req - 1) * 10 + 1 \<and>
            pageIndices (page req)
              = [20 + (page req - 1) * 10 + 1..20 + (page req - 1) * 10 + 10]"
    using pageIndices_pos [of "page req"] startIndex_exact [of "page req"]
    by (auto simp: algebra_simps)
  have g: "pageCount 0 = 20" "1 \<le> page req \<longrightarrow> pageCount (page req) = 10"
    by (simp_all add: pageCount_def)
  have h: "\<forall>k. 10 * int k + 20 \<le> 2 ^ 53 \<longrightarrow>
            concat (map pageIndices [0..int k]) = [1..20 + 10 * int k]"
    using concat_pages by blast
  from a b d e f g h validate_Inr(2) [OF assms(1)] pageIndices_zero
  show ?thesis by blast
qed

theorem pagination_contiguous_witness:
  "(\<exists>pg. postBooks demoEnv (ascii ''2025-08-04T00:00:00.000Z'')
       \<lparr>bodyPage = 1, bodyLocale = None, bodySeed = 42, bodyAvgLikes = 5,
          bodyAvgReviews = 2\<rparr> 0 = Ok pg \<and>
      map index (books pg) = [21..30] \<and> length (books pg) = 10 \<and> hasMore pg) \<and>
   (\<exists>pg. postBooks demoEnv (ascii ''2025-08-04T00:00:00.000Z'')
       \<lparr>bodyPage = 50, bodyLocale = None, bodySeed = 42, bodyAvgLikes = 5,
          bodyAvgReviews = 2\<rparr> 0 = Ok pg \<and>
      map index (books pg) = [511..520] \<and> \<not> hasMore pg) \<and>
   concat (map pageIndices [0..3]) = [1..50]"
proof -
  have en: "ascii ''en-US'' \<in> set supportedLocales" by (simp add: supportedLocales_def)
  have f: "formatsLocale demoEnv (reqLocale \<lparr>page = p, reqLocale = ascii ''en-US'', reqSeed = 42,
      reqAvgLikes = 5, reqAvgReviews = 2\<rparr>)" for p
    using demo_supported_tables [OF en] by simp
  have v1: "validate \<lparr>bodyPage = 1, bodyLocale = None, bodySeed = 42, bodyAvgLikes = 5,
      bodyAvgReviews = 2\<rparr>
    = Inr \<lparr>page = 1, reqLocale = ascii ''en-US'', reqSeed = 42, reqAvgLikes = 5,
        reqAvgReviews = 2\<rparr>"
    by (rule demo_validate) simp_all
  have v50: "validate \<lparr>bodyPage = 50, bodyLocale = None, bodySeed = 42, bodyAvgLikes = 5,
      bodyAvgReviews = 2\<rparr>
    = Inr \<lparr>page = 50, reqLocale = ascii ''en-US'', reqSeed = 42, reqAvgLikes = 5,
        reqAvgReviews = 2\<rparr>"
    by (rule demo_validate) simp_all
  note p1 = pagination_contiguous [OF v1 demo_intsInRange f,
      of "ascii ''2025-08-04T00:00:00.000Z''" 0]
  note p50 = pagination_contiguous [OF v50 demo_intsInRange f,
      of "ascii ''2025-08-04T00:00:00.000Z''" 0]
  from p1 have "10 * int 3 + 20 \<le> 2 ^ 53 \<longrightarrow>
      concat (map pageIndices [0..int 3]) = [1..20 + 10 * int 3]" by blast
  then have c: "concat (map pageIndices [0..3]) = [1..50]" by simp
  from p1 have a: "\<exists>pg. postBooks demoEnv (ascii ''2025-08-04T00:00:00.000Z'')
       \<lparr>bodyPage = 1, bodyLocale = None, bodySeed = 42, bodyAvgLikes = 5,
          bodyAvgReviews = 2\<rparr> 0 = Ok pg \<and>
      map index (books pg) = [21..30] \<and> length (books pg) = 10 \<and> hasMore pg"
    by auto
  from p50 have b: "\<exists>pg. postBooks demoEnv (ascii ''2025-08-04T00:00:00.000Z'')
       \<lparr>bodyPage = 50, bodyLocale = None, bodySeed = 42, bodyAvgLikes = 5,
          bodyAvgReviews = 2\<rparr> 0 = Ok pg \<and>
      map index (books pg) = [511..520] \<and> \<not> hasMore pg"
    by auto
  from a b c show ?thesis by blast
qed

text \<open>
  Page 900719925474099 passes validation; its indices lie above \<open>2 ^ 53\<close>, where the
  additions round, and the page repeats and skips indices.
\<close>

theorem pagination_rounding_counterexample:
  "\<exists>pg. postBooks demoEnv (ascii ''2025-08-04T00:00:00.000Z'')
       \<lparr>bodyPage = 900719925474099, bodyLocale = None, bodySeed = 42, bodyAvgLikes = 5,
          bodyAvgReviews = 2\<rparr> 0 = Ok pg \<and>
     map index (books pg) =
       [9007199254741000, 9007199254741000, 9007199254741002, 9007199254741004,
        9007199254741004, 9007199254741004, 9007199254741006, 9007199254741008,
        9007199254741008, 9007199254741008]"
proof -
  have en: "ascii ''en-US'' \<in> set supportedLocales" by (simp add: supportedLocales_def)
  have f: "formatsLocale demoEnv (reqLocale \<lparr>page = p, reqLocale = ascii ''en-US'', reqSeed = 42,
      reqAvgLikes = 5, reqAvgReviews = 2\<rparr>)" for p
    using demo_supported_tables [OF en] by simp
  have v: "validate \<lparr>bodyPage = 900719925474099, bodyLocale = None, bodySeed = 42,
      bodyAvgLikes = 5, bodyAvgReviews = 2\<rparr>
    = Inr \<lparr>page = 900719925474099, reqLocale = ascii ''en-US'', reqSeed = 42,
        reqAvgLikes = 5, reqAvgReviews = 2\<rparr>"
    by (rule demo_validate) simp_all
  from postBooks_Ok [OF v demo_intsInRange f, of "ascii ''2025-08-04T00:00:00.000Z''" 0]
  show ?thesis by (auto simp: pageIndices_rounded)
qed

text \<open>
  Claim C9. For every valid request, whatever its page number, the handler returns the
  whole list that the generation loop produced for the page: 20 records for page 0 and
  10 otherwise. The limit of 50 pages shows only in \<open>hasMore\<close>.
\<close>

theorem page_beyond_limit_full:
  assumes "validate body = Inr req" and "intsInRange E" and "formatsLocale E (reqLocale req)"
  shows "\<exists>pg s'. postBooks E now body s = Ok pg \<and>
           bookLoop E (newGenerator (reqLocale req) (reqSeed req) (reqAvgLikes req)
                  (reqAvgReviews req))
               (startIndex (page req)) 0 (pageCount (page req)) s = Inr (books pg, s') \<and>
           length (books pg) = (if page req = 0 then 20 else 10) \<and>
           hasMore pg = (page req < 50)"
proof -
  from postBooks_Ok [OF assms, of now s] obtain pg s' where
    a: "postBooks E now body s = Ok pg" and
    l: "bookLoop E (newGenerator (reqLocale req) (reqSeed req) (reqAvgLikes req)
                  (reqAvgReviews req))
               (startIndex (page req)) 0 (pageCount (page req)) s = Inr (books pg, s')" and
    c: "hasMore pg = (page req < 50)" by blast
  from bookLoop_length [OF l] have "length (books pg) = (if page req = 0 then 20 else 10)"
    by (simp add: pageCount_def)
  with a l c show ?thesis by blast
qed

theorem page_beyond_limit_full_witness:
  "\<exists>pg. postBooks demoEnv (ascii ''2025-08-04T00:00:00.000Z'')
       \<lparr>bodyPage = 75, bodyLocale = None, bodySeed = 42, bodyAvgLikes = 5,
          bodyAvgReviews = 2\<rparr> 0 = Ok pg \<and>
      length (books pg) = 10 \<and> \<not> hasMore pg"
proof -
  have en: "ascii ''en-US'' \<in> set supportedLocales" by (simp add: supportedLocales_def)
  have f: "formatsLocale demoEnv (reqLocale \<lparr>page = p, reqLocale = ascii ''en-US'', reqSeed = 42,
      reqAvgLikes = 5, reqAvgReviews = 2\<rparr>)" for p
    using demo_supported_tables [OF en] by simp
  have v: "validate \<lparr>bodyPage = 75, bodyLocale = None, bodySeed = 42, bodyAvgLikes = 5,
      bodyAvgReviews = 2\<rparr>
    = Inr \<lparr>page = 75, reqLocale = ascii ''en-US'', reqSeed = 42, reqAvgLikes = 5,
        reqAvgReviews = 2\<rparr>"
    by (rule demo_validate) simp_all
  from page_beyond_limit_full [OF v demo_intsInRange f, of "ascii ''2025-08-04T00:00:00.000Z''" 0]
  show ?thesis by auto
qed

section \<open>The parameter fingerprint\<close>

lemma toInt32_bounds: "- (2 ^ 31) \<le> toInt32 n \<and> toInt32 n < 2 ^ 31"
  unfolding toInt32_def
  using signed_take_bit_int_greater_eq_minus_exp [of 31 n] signed_take_bit_int_less_exp [of 31 n]
  by simp

lemma hashLoop_bounds:
  "- (2 ^ 31) \<le> h \<and> h < 2 ^ 31 \<Longrightarrow> - (2 ^ 31) \<le> hashLoop h str \<and> hashLoop h str < 2 ^ 31"
proof (induction str arbitrary: h)
  case Nil
  then show ?case by simp
next
  case (Cons c str)
  show ?case unfolding hashLoop.simps by (rule Cons.IH) (rule toInt32_bounds)
qed

lemma hashParameters_bounds: "0 \<le> hashParameters E g \<and> hashParameters E g \<le> 2 ^ 31"
proof -
  have "- (2 ^ 31) \<le> (0::int) \<and> (0::int) < 2 ^ 31" by simp
  from hashLoop_bounds [OF this, of "parameterString E g"] show ?thesis
    unfolding hashParameters_def by linarith
qed

lemma hashParameters_cong:
  "locale' g = locale' g' \<Longrightarrow> avgLikes g = avgLikes g' \<Longrightarrow> avgReviews g = avgReviews g' \<Longrightarrow>
     hashParameters E g = hashParameters E g'"
  by (simp add: hashParameters_def parameterString_def)

lemma uniqueSeed_exact:
  assumes "\<bar>baseSeed g\<bar> + 2 ^ 31 + \<bar>idx\<bar> \<le> 2 ^ 53"
  shows "uniqueSeed E g idx = baseSeed g + hashParameters E g + idx"
proof -
  from hashParameters_bounds [of E g] assms
  have a: "\<bar>baseSeed g + hashParameters E g\<bar> \<le> 2 ^ 53"
    and b: "\<bar>baseSeed g + hashParameters E g + idx\<bar> \<le> 2 ^ 53"
    by (simp_all, linarith+)
  show ?thesis
    unfolding uniqueSeed_def numAdd_exact [OF a] by (rule numAdd_exact [OF b])
qed

text \<open>
  Claim C3, as amended. The fingerprint is a function of locale, avgLikes and avgReviews
  only and lies between 0 and \<open>2 ^ 31\<close>; the seed handed to the random source for a
  record is baseSeed + fingerprint + index in double arithmetic, which is the exact sum
  when \<open>\<bar>baseSeed\<bar> + 2 ^ 31 + \<bar>index\<bar> \<le> 2 ^ 53\<close>. Two parameter tuples that differ
  only in the seed have the same fingerprint, and inside that range their derived
  per-record seeds differ at the index; two tuples with the same seed have, inside that
  range, different derived seeds at an index exactly when their fingerprints differ.
\<close>

theorem fingerprint_and_derived_seed:
  "(locale' g = locale' g' \<and> avgLikes g = avgLikes g' \<and> avgReviews g = avgReviews g' \<longrightarrow>
      hashParameters E g = hashParameters E g' \<and>
      (baseSeed g \<noteq> baseSeed g' \<and>
       \<bar>baseSeed g\<bar> + 2 ^ 31 + \<bar>idx\<bar> \<le> 2 ^ 53 \<and> \<bar>baseSeed g'\<bar> + 2 ^ 31 + \<bar>idx\<bar> \<le> 2 ^ 53 \<longrightarrow>
         uniqueSeed E g idx \<noteq> uniqueSeed E g' idx)) \<and>
   (baseSeed g = baseSeed g' \<and> \<bar>baseSeed g\<bar> + 2 ^ 31 + \<bar>idx\<bar> \<le> 2 ^ 53 \<longrightarrow>
      (uniqueSeed E g idx \<noteq> uniqueSeed E g' idx) = (hashParameters E g \<noteq> hashParameters E g')) \<and>
   0 \<le> hashParameters E g \<and> hashParameters E g \<le> 2 ^ 31 \<and>
   setSeedForIndex E g idx s
     = seed E (numAdd (numAdd (baseSeed g) (hashParameters E g)) idx) s \<and>
   (\<bar>baseSeed g\<bar> + 2 ^ 31 + \<bar>idx\<bar> \<le> 2 ^ 53 \<longrightarrow>
      uniqueSeed E g idx = baseSeed g + hashParameters E g + idx)"
proof -
  have a: "locale' g = locale' g' \<and> avgLikes g = avgLikes g' \<and> avgReviews g = avgReviews g' \<longrightarrow>
      hashParameters E g = hashParameters E g' \<and>
      (baseSeed g \<noteq> baseSeed g' \<and>
       \<bar>baseSeed g\<bar> + 2 ^ 31 + \<bar>idx\<bar> \<le> 2 ^ 53 \<and> \<bar>baseSeed g'\<bar> + 2 ^ 31 + \<bar>idx\<bar> \<le> 2 ^ 53 \<longrightarrow>
         uniqueSeed E g idx \<noteq> uniqueSeed E g' idx)"
    using hashParameters_cong [of g g' E] uniqueSeed_exact [of g idx E]
      uniqueSeed_exact [of g' idx E]
    by auto
  have b: "baseSeed g = baseSeed g' \<and> \<bar>baseSeed g\<bar> + 2 ^ 31 + \<bar>idx\<bar> \<le> 2 ^ 53 \<longrightarrow>
      (uniqueSeed E g idx \<noteq> uniqueSeed E g' idx) = (hashParameters E g \<noteq> hashParameters E g')"
    using uniqueSeed_exact [of g idx E] uniqueSeed_exact [of g' idx E] by auto
  have c: "setSeedForIndex E g idx s
     = seed E (numAdd (numAdd (baseSeed g) (hashParameters E g)) idx) s"
    by (simp add: setSeedForIndex_def uniqueSeed_def)
  from a b c hashParameters_bounds [of E g] uniqueSeed_exact [of g idx E]
  show ?thesis by blast
qed

theorem fingerprint_and_derived_seed_witness:
  "hashParameters demoEnv (newGenerator (ascii ''en-US'') 1 5 2)
     = hashParameters demoEnv (newGenerator (ascii ''en-US'') 2 5 2) \<and>
   uniqueSeed demoEnv (newGenerator (ascii ''en-US'') 1 5 2) 7
     \<noteq> uniqueSeed demoEnv (newGenerator (ascii ''en-US'') 2 5 2) 7 \<and>
   uniqueSeed demoEnv (newGenerator (ascii ''en-US'') 1 5 2) 7 = 65817239"
  using fingerprint_and_derived_seed [of "newGenerator (ascii ''en-US'') 1 5 2"
      "newGenerator (ascii ''en-US'') 2 5 2" demoEnv 7 0]
  by (simp add: newGenerator_sel demo_hashParameters)

lemma collide_hash: "hashLoop 0 (ascii ''Aa-5-2'') = hashLoop 0 (ascii ''BB-5-2'')"
  by (simp add: ascii_def toInt32_def)

text \<open>
  The fingerprint does not change with the seed; two locale strings can share a
  fingerprint and with it every derived seed; and two seeds near \<open>2 ^ 53\<close> give the same
  derived seed, because the additions round.
\<close>

theorem fingerprint_insensitive_counterexample:
  "hashParameters demoEnv (newGenerator (ascii ''en-US'') 1 5 2)
     = hashParameters demoEnv (newGenerator (ascii ''en-US'') 2 5 2) \<and>
   hashParameters demoEnv (newGenerator (ascii ''Aa'') 1 5 2)
     = hashParameters demoEnv (newGenerator (ascii ''BB'') 1 5 2) \<and>
   uniqueSeed demoEnv (newGenerator (ascii ''Aa'') 1 5 2) 1
     = uniqueSeed demoEnv (newGenerator (ascii ''BB'') 1 5 2) 1 \<and>
   uniqueSeed demoEnv (newGenerator (ascii ''en-US'') 9007199254740990 5 2) 1
     = uniqueSeed demoEnv (newGenerator (ascii ''en-US'') 9007199254740989 5 2) 1"
proof -
  have "ascii ''Aa'' @ ascii ''-5-2'' = ascii ''Aa-5-2''"
    "ascii ''BB'' @ ascii ''-5-2'' = ascii ''BB-5-2''"
    by (simp_all add: ascii_def)
  then have a: "hashParameters demoEnv (newGenerator (ascii ''Aa'') 1 5 2)
     = hashParameters demoEnv (newGenerator (ascii ''BB'') 1 5 2)"
    by (simp add: hashParameters_def demo_parameterString_any collide_hash)
  have b: "uniqueSeed demoEnv (newGenerator (ascii ''en-US'') 9007199254740990 5 2) 1
     = uniqueSeed demoEnv (newGenerator (ascii ''en-US'') 9007199254740989 5 2) 1"
    by (simp add: uniqueSeed_def demo_hashParameters newGenerator_sel numAdd_def
        roundToDouble_def spacing_next)
  from a b show ?thesis
    by (simp add: demo_hashParameters uniqueSeed_def newGenerator_sel)
qed

section \<open>The fractional count sampler\<close>

lemma frac_bounds: "0 \<le> t - real_of_int \<lfloor>t\<rfloor> \<and> t - real_of_int \<lfloor>t\<rfloor> < 1" for t :: real
  by linarith

lemma exactCount_zero: "generateExactCount E 0 s = (0, s)"
  by (simp add: generateExactCount_def)

lemma exactCount_fst:
  assumes "0 \<le> fst (numberFloat E s)"
  shows "fst (generateExactCount E t s) =
           (if fst (numberFloat E s) < t - real_of_int \<lfloor>t\<rfloor> then \<lfloor>t\<rfloor> + 1 else \<lfloor>t\<rfloor>)"
  using assms by (auto simp: generateExactCount_def Let_def split: prod.splits)

lemma exactCount_snd:
  "snd (generateExactCount E t s) =
     (if 0 < t - real_of_int \<lfloor>t\<rfloor> then snd (numberFloat E s) else s)"
  by (auto simp: generateExactCount_def Let_def split: prod.splits)

lemma countAt_eq:
  assumes "0 \<le> u"
  shows "countAt t u = (if u < t - real_of_int \<lfloor>t\<rfloor> then \<lfloor>t\<rfloor> + 1 else \<lfloor>t\<rfloor>)"
  unfolding countAt_def using exactCount_fst [of "fixedDraw u" 0 t] assms
  by (simp add: fixedDraw_def)

lemma sum_indicator: "m \<le> N \<Longrightarrow> (\<Sum>k<N. if k < m then 1 else 0 :: real) = real m"
proof -
  assume "m \<le> N"
  then have "{..<N} \<inter> {k. k < m} = {..<m}" by auto
  then show ?thesis by (simp add: sum.If_cases)
qed

lemma gridMean_countAt:
  assumes N: "0 < N" and m: "(t - real_of_int \<lfloor>t\<rfloor>) * real N = real m"
  shows "gridMean N (countAt t) = t"
proof -
  let ?f = "t - real_of_int \<lfloor>t\<rfloor>"
  have f: "0 \<le> ?f" "?f < 1" by linarith+
  have "?f * real N < 1 * real N"
    using f N by (intro mult_strict_right_mono) auto
  then have "real m < real N" using m by simp
  then have mN: "m \<le> N" by simp
  have lt: "(real k / real N < ?f) = (k < m)" for k
  proof -
    have "(real k / real N < ?f) = (real k < ?f * real N)"
      using N by (simp add: pos_divide_less_eq)
    then show ?thesis using m by simp
  qed
  have "countAt t (real k / real N) = \<lfloor>t\<rfloor> + (if k < m then 1 else 0)" for k
    using countAt_eq [of "real k / real N" t] lt [of k] by simp
  then have "(\<Sum>k<N. real_of_int (countAt t (real k / real N)))
      = (\<Sum>k<N. real_of_int \<lfloor>t\<rfloor> + (if k < m then 1 else 0))"
    by (intro sum.cong) auto
  also have "\<dots> = real N * real_of_int \<lfloor>t\<rfloor> + real m"
    using sum_indicator [OF mN] by (simp add: sum.distrib)
  finally have "gridMean N (countAt t) = (real N * real_of_int \<lfloor>t\<rfloor> + ?f * real N) / real N"
    unfolding gridMean_def using m by simp
  also have "\<dots> = t" using N by (simp add: field_simps)
  finally show ?thesis .
qed

text \<open>
  Claim C4. With \<open>n = \<lfloor>target\<rfloor>\<close>, \<open>f = target - n\<close> and \<open>u\<close> the next uniform draw of the
  source (in \<open>[0, 1)\<close>): a zero target returns 0 and leaves the source untouched; the
  result is \<open>n + 1\<close> when \<open>u < f\<close> and \<open>n\<close> otherwise, so it is \<open>n\<close> or \<open>n + 1\<close>; the
  source afterwards is either unchanged or advanced by that one draw; \<open>f\<close> lies in
  \<open>[0, 1)\<close>, and weighting \<open>n + 1\<close> with \<open>f\<close> and \<open>n\<close> with \<open>1 - f\<close> gives the target; and
  over every grid of \<open>N\<close> equally likely draws \<open>k / N\<close> that resolves \<open>f\<close> the mean of
  the results is the target.
\<close>

theorem generateExactCount_sampling:
  assumes "unitFloats E"
  shows "(target = 0 \<longrightarrow> generateExactCount E target s = (0, s)) \<and>
         fst (generateExactCount E target s) =
           (if fst (numberFloat E s) < target - real_of_int \<lfloor>target\<rfloor>
            then \<lfloor>target\<rfloor> + 1 else \<lfloor>target\<rfloor>) \<and>
         fst (generateExactCount E target s) \<in> {\<lfloor>target\<rfloor>, \<lfloor>target\<rfloor> + 1} \<and>
         snd (generateExactCount E target s) \<in> {s, snd (numberFloat E s)} \<and>
         0 \<le> target - real_of_int \<lfloor>target\<rfloor> \<and> target - real_of_int \<lfloor>target\<rfloor> < 1 \<and>
         real_of_int (\<lfloor>target\<rfloor> + 1) * (target - real_of_int \<lfloor>target\<rfloor>)
           + real_of_int \<lfloor>target\<rfloor> * (1 - (target - real_of_int \<lfloor>target\<rfloor>)) = target \<and>
         (\<forall>N m. 0 < N \<and> (target - real_of_int \<lfloor>target\<rfloor>) * real N = real m \<longrightarrow>
            gridMean N (countAt target) = target)"
proof -
  have u: "0 \<le> fst (numberFloat E s)" using assms by (simp add: unitFloats_def)
  have a: "target = 0 \<longrightarrow> generateExactCount E target s = (0, s)"
    by (simp add: exactCount_zero)
  note b = exactCount_fst [OF u, of target]
  have c: "fst (generateExactCount E target s) \<in> {\<lfloor>target\<rfloor>, \<lfloor>target\<rfloor> + 1}"
    unfolding b by simp
  have d: "snd (generateExactCount E target s) \<in> {s, snd (numberFloat E s)}"
    unfolding exactCount_snd by simp
  have e: "real_of_int (\<lfloor>target\<rfloor> + 1) * (target - real_of_int \<lfloor>target\<rfloor>)
           + real_of_int \<lfloor>target\<rfloor> * (1 - (target - real_of_int \<lfloor>target\<rfloor>)) = target"
    by (simp add: algebra_simps)
  have g: "\<forall>N m. 0 < N \<and> (target - real_of_int \<lfloor>target\<rfloor>) * real N = real m \<longrightarrow>
            gridMean N (countAt target) = target"
    using gridMean_countAt by blast
  from a b c d e g frac_bounds [of target] show ?thesis by blast
qed

theorem generateExactCount_sampling_witness:
  "generateExactCount demoEnv 0 3 = (0, 3) \<and> fst (generateExactCount demoEnv (47/10) 3) = 5 \<and>
   fst (generateExactCount demoEnv (47/10) 8) = 4 \<and> gridMean 10 (countAt (47/10)) = 47/10"
  using generateExactCount_sampling [OF demo_unitFloats, of 0 3] generateExactCount_sampling [OF demo_unitFloats, of "47/10" 3]
    generateExactCount_sampling [OF demo_unitFloats, of "47/10" 8]
  by (simp add: demoEnv_def)

text \<open>
  Claim C10. For a nonzero target with no fractional part \<open>generateExactCount\<close> returns
  the target's floor and leaves the random source as it was; the source is advanced by
  one uniform draw when the fractional part is positive, and is left unchanged
  otherwise.
\<close>

theorem generateExactCount_integral_no_draw:
  "(target \<in> \<int> \<and> target \<noteq> 0 \<longrightarrow> generateExactCount E target s = (\<lfloor>target\<rfloor>, s)) \<and>
   (0 < target - real_of_int \<lfloor>target\<rfloor> \<longrightarrow>
      snd (generateExactCount E target s) = snd (numberFloat E s)) \<and>
   (\<not> 0 < target - real_of_int \<lfloor>target\<rfloor> \<longrightarrow> snd (generateExactCount E target s) = s)"
proof -
  have "target \<in> \<int> \<Longrightarrow> target - real_of_int \<lfloor>target\<rfloor> = 0"
    by (auto simp: Ints_def)
  then have "target \<in> \<int> \<and> target \<noteq> 0 \<longrightarrow> generateExactCount E target s = (\<lfloor>target\<rfloor>, s)"
    by (simp add: generateExactCount_def Let_def)
  then show ?thesis by (simp add: exactCount_snd)
qed

theorem generateExactCount_integral_no_draw_witness: "generateExactCount demoEnv 5 7 = (5, 7) \<and> snd (generateExactCount demoEnv (47/10) 7) = 8"
  using generateExactCount_integral_no_draw [of 5 demoEnv 7] generateExactCount_integral_no_draw [of "47/10" demoEnv 7] by (simp add: demoEnv_def)

section \<open>Sentiment and rating\<close>

lemma sentiment_refines:
  assumes "fst (numberFloat E s) < 1"
  shows "sampleCumulative (thresholds (bandOf (popularityRatio n))) (fst (numberFloat E s))
           = Some (fst (determineReviewSentiment E n s))"
proof -
  define r where "r = min (real_of_int n / 10) 1"
  obtain u s' where d: "numberFloat E s = (u, s')" by (cases "numberFloat E s")
  with assms have u: "u < 1" by simp
  have main: "sampleCumulative (thresholds (bandOf r)) u
          = Some (fst (if r > 0.7 then
                         (if u < 0.8 then (positive, s')
                          else if u < 0.95 then (neutral, s') else (negative, s'))
                       else if r > 0.4 then
                         (if u < 0.5 then (positive, s')
                          else if u < 0.85 then (neutral, s') else (negative, s'))
                       else
                         (if u < 0.2 then (positive, s')
                          else if u < 0.6 then (neutral, s') else (negative, s'))))"
    using u by (auto simp: bandOf_def)
  show ?thesis
    unfolding determineReviewSentiment_def popularityRatio_def Let_def d prod.case fst_conv
      r_def [symmetric]
    by (fact main)
qed

lemma sentiment_state: "snd (determineReviewSentiment E n s) = snd (numberFloat E s)"
  by (cases "numberFloat E s") (simp add: determineReviewSentiment_def Let_def)

lemma rating_table:
  "map (\<lambda>(w, v). (v, w)) (ratingChoices t) = ratingPercent t \<and>
   sum_list (map fst (ratingChoices t)) = 100"
  by (cases t) simp_all

text \<open>
  Claim C5. The sentiment that \<open>determineReviewSentiment\<close> returns is the one the
  cumulative thresholds of the band of \<open>r = min (likes / 10) 1\<close> select for the one
  uniform draw it takes, and the source is advanced by exactly that draw; the rating is
  the weighted pick over the table of the sentiment, whose weights add up to 100 and are
  the stated percentages.
\<close>

theorem sentiment_rating_model:
  assumes "unitFloats E"
  shows "sampleCumulative (thresholds (bandOf (popularityRatio n))) (fst (numberFloat E s))
           = Some (fst (determineReviewSentiment E n s)) \<and>
         snd (determineReviewSentiment E n s) = snd (numberFloat E s) \<and>
         generateRatingFromSentiment E t s' = weightedArrayElement E (ratingChoices t) s' \<and>
         map (\<lambda>(w, v). (v, w)) (ratingChoices t) = ratingPercent t \<and>
         sum_list (map fst (ratingChoices t)) = 100"
proof -
  have "fst (numberFloat E s) < 1" using assms by (simp add: unitFloats_def)
  from sentiment_refines [OF this] sentiment_state rating_table show ?thesis
    by (simp add: generateRatingFromSentiment_def)
qed

theorem sentiment_rating_model_witness:
  "determineReviewSentiment demoEnv 8 3 = (positive, 4) \<and>
   determineReviewSentiment demoEnv 8 9 = (neutral, 10) \<and>
   determineReviewSentiment demoEnv 5 9 = (negative, 10) \<and>
   determineReviewSentiment demoEnv 2 3 = (neutral, 4)"
  using sentiment_rating_model [OF demo_unitFloats, of 8 3] sentiment_rating_model [OF demo_unitFloats, of 8 9]
    sentiment_rating_model [OF demo_unitFloats, of 5 9] sentiment_rating_model [OF demo_unitFloats, of 2 3]
  by (simp add: demoEnv_def popularityRatio_def bandOf_def prod_eq_iff)

section \<open>Reviews\<close>

lemma enUS_distinct: "distinct (enUS_positive @ enUS_neutral @ enUS_negative)"
  by (simp add: enUS_positive_def enUS_neutral_def enUS_negative_def ascii_def)

lemma deDE_distinct: "distinct (deDE_positive @ deDE_neutral @ deDE_negative)"
  by (simp add: deDE_positive_def deDE_neutral_def deDE_negative_def ascii_def)

lemma jaJP_distinct: "distinct (jaJP_positive @ jaJP_neutral @ jaJP_negative)"
  by (simp add: jaJP_positive_def jaJP_neutral_def jaJP_negative_def)

lemma localeTable_mem: "localeTable table loc = Inr t \<Longrightarrow> t \<in> snd ` set table"
  by (auto simp: localeTable_def getProperty_def split: option.splits if_splits
      dest!: map_of_SomeD intro: rev_image_eqI)

lemma corpora_disjoint:
  assumes "localeTable reviewsTable loc = Inr table" and "t \<noteq> t'"
  shows "set (table t) \<inter> set (table t') = {}"
proof -
  from localeTable_mem [OF assms(1)] consider
    "table = (\<lambda>t. case t of positive \<Rightarrow> enUS_positive | neutral \<Rightarrow> enUS_neutral
                  | negative \<Rightarrow> enUS_negative)"
    | "table = (\<lambda>t. case t of positive \<Rightarrow> deDE_positive | neutral \<Rightarrow> deDE_neutral
                  | negative \<Rightarrow> deDE_negative)"
    | "table = (\<lambda>t. case t of positive \<Rightarrow> jaJP_positive | neutral \<Rightarrow> jaJP_neutral
                  | negative \<Rightarrow> jaJP_negative)"
    by (auto simp: reviewsTable_def)
  then show ?thesis
  proof cases
    case 1
    with enUS_distinct assms(2) show ?thesis
      by (cases t; cases t') auto
  next
    case 2
    with deDE_distinct assms(2) show ?thesis
      by (cases t; cases t') auto
  next
    case 3
    with jaJP_distinct assms(2) show ?thesis
      by (cases t; cases t') auto
  qed
qed

lemma corpora_nonempty:
  assumes "localeTable reviewsTable loc = Inr table"
  shows "table t \<noteq> []"
proof -
  from localeTable_mem [OF assms(1)] consider
    "table = (\<lambda>t. case t of positive \<Rightarrow> enUS_positive | neutral \<Rightarrow> enUS_neutral
                  | negative \<Rightarrow> enUS_negative)"
    | "table = (\<lambda>t. case t of positive \<Rightarrow> deDE_positive | neutral \<Rightarrow> deDE_neutral
                  | negative \<Rightarrow> deDE_negative)"
    | "table = (\<lambda>t. case t of positive \<Rightarrow> jaJP_positive | neutral \<Rightarrow> jaJP_neutral
                  | negative \<Rightarrow> jaJP_negative)"
    by (auto simp: reviewsTable_def)
  then show ?thesis
    by cases (cases t; simp add: enUS_positive_def enUS_neutral_def enUS_negative_def
      deDE_positive_def deDE_neutral_def deDE_negative_def
      jaJP_positive_def jaJP_neutral_def jaJP_negative_def)+
qed

lemma arrayElement_mem:
  assumes "picksInRange E" and "xs \<noteq> []"
  shows "fst (arrayElement E xs s) \<in> set xs"
proof -
  from assms have "fst (arrayIndex E (length xs) s) < length xs"
    by (simp add: picksInRange_def)
  then show ?thesis
    by (cases "arrayIndex E (length xs) s") (simp add: arrayElement_def)
qed

lemma weightedArrayElement_mem:
  assumes "picksInRange E" and "xs \<noteq> []"
  shows "fst (weightedArrayElement E xs s) \<in> snd ` set xs"
proof -
  from assms(2) have "map fst xs \<noteq> []" by simp
  with assms(1) have "fst (weightedIndex E (map fst xs) s) < length (map fst xs)"
    unfolding picksInRange_def by blast
  then have "fst (weightedIndex E (map fst xs) s) < length xs" by simp
  then show ?thesis
    by (cases "weightedIndex E (map fst xs) s") (simp add: weightedArrayElement_def)
qed

lemma rating_range: "v \<in> snd ` set (ratingChoices t) \<Longrightarrow> 1 \<le> v \<and> v \<le> 5"
  by (cases t) auto

lemma nextReview_joint:
  assumes p: "picksInRange E" and r: "nextReview E g n s = Inr (r, s')"
  shows "sampledJointly E g n s r"
proof -
  obtain t s1 where a: "determineReviewSentiment E n s = (t, s1)"
    by (cases "determineReviewSentiment E n s")
  obtain v s2 where b: "weightedArrayElement E (ratingChoices t) s1 = (v, s2)"
    by (cases "weightedArrayElement E (ratingChoices t) s1")
  then have b': "generateRatingFromSentiment E t s1 = (v, s2)"
    by (simp add: generateRatingFromSentiment_def)
  from r a b' obtain body s3 where c: "generateReviewText E g t s2 = Inr (body, s3)"
    by (auto simp: nextReview_def split: sum.splits)
  then obtain table where tb: "localeTable reviewsTable (locale' g) = Inr table"
    and body: "(body, s3) = arrayElement E (table t) s2"
    by (auto simp: generateReviewText_def split: sum.splits)
  have corpus: "corpusFor (locale' g) u = table u" for u
    by (simp add: corpusFor_def tb)
  from r a b' c have rr: "rating r = v" and rt: "text' r = body"
    by (auto simp: nextReview_def split: sum.splits prod.splits)
  have "ratingChoices t \<noteq> []" by (cases t) simp_all
  from weightedArrayElement_mem [OF p this, of s1] b
  have v: "v \<in> snd ` set (ratingChoices t)" by simp
  from arrayElement_mem [OF p corpora_nonempty [OF tb], of t s2] body
  have m: "body \<in> set (table t)" by (metis fst_conv)
  have other: "body \<notin> set (table t')" if "t' \<noteq> t" for t'
    using corpora_disjoint [OF tb, of t t'] that m by auto
  have all: "list_all (\<lambda>t'. t' = t \<or> body \<notin> set (table t')) [positive, neutral, negative]"
    using other by auto
  show ?thesis
    unfolding sampledJointly_def a b corpus body [symmetric] Let_def prod.case
    using rr rt v m all by simp
qed

lemma reviewLoop_joint:
  assumes p: "picksInRange E"
  shows "reviewLoop E g n k s = Inr (rs, s') \<Longrightarrow> r \<in> set rs \<Longrightarrow>
    \<exists>s0. sampledJointly E g n s0 r"
proof (induction k arbitrary: s rs)
  case 0
  then show ?case by simp
next
  case (Suc k)
  from Suc.prems(1) obtain r0 s1 rest where
    a: "nextReview E g n s = Inr (r0, s1)" and
    b: "reviewLoop E g n k s1 = Inr (rest, s')" and
    c: "rs = r0 # rest"
    by (auto split: sum.splits)
  from Suc.prems(2) c consider "r = r0" | "r \<in> set rest" by auto
  then show ?case
  proof cases
    case 1
    with nextReview_joint [OF p a] show ?thesis by blast
  next
    case 2
    from Suc.IH [OF b this] show ?thesis .
  qed
qed

lemma reviewLoop_length: "reviewLoop E g n k s = Inr (rs, s') \<Longrightarrow> length rs = k"
  by (induction k arbitrary: s rs) (auto split: sum.splits)

lemma generateBook_reviews:
  assumes "generateBook E g idx s = Inr (b, s')"
  shows "\<exists>s7 s9. reviewLoop E g (likes b)
            (nat (fst (generateExactCount E (avgReviews g) s7)))
            (snd (generateExactCount E (avgReviews g) s7)) = Inr (reviews b, s9)"
  using assms unfolding generateBook_def Let_def
  by (auto split: sum.splits prod.splits list.splits) (metis fst_conv snd_conv)

lemma sampledJointly_rating:
  "sampledJointly E g n s r \<Longrightarrow> 1 \<le> rating r \<and> rating r \<le> 5"
  using rating_range
  by (auto simp: sampledJointly_def Let_def split: prod.splits)

text \<open>
  Claim C6. In every generated record the reviews are the output of the review loop, and
  every review has a rating between 1 and 5 and is sampled jointly: from one state of
  the random source one sentiment is sampled, the rating is the weighted pick over the
  rating table of that sentiment, and the text is the pick from the corpus of that same
  sentiment for the locale of the generator, a text that no corpus of another sentiment
  contains. Every review that the loop body returns is sampled jointly from the state
  the body started in.
\<close>

theorem review_rating_text_joint:
  assumes "picksInRange E" and "generateBook E g idx s = Inr (b, s')"
  shows "(\<forall>r \<in> set (reviews b).
            1 \<le> rating r \<and> rating r \<le> 5 \<and> (\<exists>s0. sampledJointly E g (likes b) s0 r)) \<and>
         (\<exists>s7 s9. reviewLoop E g (likes b)
            (nat (fst (generateExactCount E (avgReviews g) s7)))
            (snd (generateExactCount E (avgReviews g) s7)) = Inr (reviews b, s9)) \<and>
         (\<forall>n s0 r s1. nextReview E g n s0 = Inr (r, s1) \<longrightarrow> sampledJointly E g n s0 r)"
proof -
  from generateBook_reviews [OF assms(2)] obtain s7 s9 where
    l: "reviewLoop E g (likes b) (nat (fst (generateExactCount E (avgReviews g) s7)))
            (snd (generateExactCount E (avgReviews g) s7)) = Inr (reviews b, s9)" by blast
  have a: "\<forall>r \<in> set (reviews b).
            1 \<le> rating r \<and> rating r \<le> 5 \<and> (\<exists>s0. sampledJointly E g (likes b) s0 r)"
  proof
    fix r assume "r \<in> set (reviews b)"
    from reviewLoop_joint [OF assms(1) l this] obtain s0 where
      j: "sampledJointly E g (likes b) s0 r" by blast
    with sampledJointly_rating [OF j]
    show "1 \<le> rating r \<and> rating r \<le> 5 \<and> (\<exists>s0. sampledJointly E g (likes b) s0 r)"
      by blast
  qed
  have c: "\<forall>n s0 r s1. nextReview E g n s0 = Inr (r, s1) \<longrightarrow> sampledJointly E g n s0 r"
    using nextReview_joint [OF assms(1)] by blast
  from a l c show ?thesis by blast
qed

theorem review_rating_text_joint_witness:
  "\<exists>b s'. generateBook demoEnv (newGenerator (ascii ''en-US'') 42 5 2) 1 0 = Inr (b, s') \<and>
     length (reviews b) = 2 \<and>
     list_all (\<lambda>r. 1 \<le> rating r \<and> rating r \<le> 5 \<and>
        (\<exists>s0. sampledJointly demoEnv (newGenerator (ascii ''en-US'') 42 5 2) (likes b) s0 r))
       (reviews b)"
proof -
  let ?g = "newGenerator (ascii ''en-US'') 42 5 2"
  have sup: "locale' ?g \<in> set supportedLocales"
    by (simp add: newGenerator_sel supportedLocales_def)
  from generateBook_succeeds [OF demo_intsInRange localeTable_titles_supported [OF sup]
      localeTable_reviews_supported [OF sup] demo_supported_tables [OF sup], of 1 0]
  obtain b s' where b: "generateBook demoEnv ?g 1 0 = Inr (b, s')" by blast
  note j = review_rating_text_joint [OF demo_picksInRange b]
  from j have all: "list_all (\<lambda>r. 1 \<le> rating r \<and> rating r \<le> 5 \<and>
        (\<exists>s0. sampledJointly demoEnv ?g (likes b) s0 r)) (reviews b)"
    by (simp add: list_all_iff)
  from j obtain s7 s9 where
    "reviewLoop demoEnv ?g (likes b) (nat (fst (generateExactCount demoEnv (avgReviews ?g) s7)))
       (snd (generateExactCount demoEnv (avgReviews ?g) s7)) = Inr (reviews b, s9)"
    by blast
  from reviewLoop_length [OF this] have "length (reviews b) = 2"
    by (simp add: newGenerator_sel generateExactCount_def)
  with b all show ?thesis by blast
qed

section \<open>The cover image descriptor\<close>

lemma jsRem_bounds: "- 999 \<le> jsRem a 1000 \<and> jsRem a 1000 \<le> 999"
proof -
  have "0 \<le> \<bar>a\<bar> mod 1000 \<and> \<bar>a\<bar> mod 1000 < 1000" by simp
  then show ?thesis
    by (cases "a < 0"; cases "a = 0") (auto simp: jsRem_def sgn_if)
qed

lemma jsRem_nonneg: "0 \<le> a \<Longrightarrow> jsRem a 1000 = a mod 1000"
  by (cases "a = 0") (auto simp: jsRem_def sgn_if)

lemma jsRem_neg: "a < 0 \<Longrightarrow> jsRem a 1000 \<le> 0"
  by (auto simp: jsRem_def sgn_if)

lemma digits_400: "intToString 400 = ascii ''400''"
  by code_simp

lemma digits_600: "intToString 600 = ascii ''600''"
  by code_simp

lemma cover_url:
  "imageUrl (generateCoverImage E g t a idx) =
     ascii ''https://picsum.photos/seed/'' @ intToString (imageId E g idx) @ ascii ''/400/600''"
  by (simp add: generateCoverImage_def Let_def digits_400 digits_600 ascii_def)

lemma generateBook_cover:
  assumes "generateBook E g idx s = Inr (b, s')"
  shows "authors b \<noteq> [] \<and> coverImage b = generateCoverImage E g (title b) (hd (authors b)) idx"
  using assms unfolding generateBook_def Let_def
  by (auto split: sum.splits prod.splits list.splits)

text \<open>
  Claim C7, as amended. The pseudo-identifier is the remainder by 1000, with the sign
  of the dividend, of baseSeed + fingerprint + index as the program computes it in
  double arithmetic (the number it also seeds the record with); it lies between -999
  and 999, is not negative when that number is not negative and not positive when it is
  negative. When \<open>\<bar>baseSeed\<bar> + 2 ^ 31 + \<bar>index\<bar> \<le> 2 ^ 53\<close> the additions are exact,
  and for a sum that is not negative the identifier is the sum modulo 1000, between 0
  and 999. The URL carries the identifier and the fixed width 400 and height 600; the
  title label is the title when it has at most 25 code units and otherwise its first 25
  followed by three dots; the author label is built the same way with 20 from the first
  author, which a generated record always has.
\<close>

theorem cover_image_descriptor:
  "imageId E g idx = jsRem (uniqueSeed E g idx) 1000 \<and>
   - 999 \<le> imageId E g idx \<and> imageId E g idx \<le> 999 \<and>
   (0 \<le> uniqueSeed E g idx \<longrightarrow> 0 \<le> imageId E g idx) \<and>
   (uniqueSeed E g idx < 0 \<longrightarrow> imageId E g idx \<le> 0) \<and>
   (\<bar>baseSeed g\<bar> + 2 ^ 31 + \<bar>idx\<bar> \<le> 2 ^ 53 \<longrightarrow>
      uniqueSeed E g idx = baseSeed g + hashParameters E g + idx) \<and>
   (\<bar>baseSeed g\<bar> + 2 ^ 31 + \<bar>idx\<bar> \<le> 2 ^ 53 \<and> 0 \<le> baseSeed g + hashParameters E g + idx \<longrightarrow>
      imageId E g idx = (baseSeed g + hashParameters E g + idx) mod 1000 \<and>
      0 \<le> imageId E g idx) \<and>
   imageUrl (generateCoverImage E g t a idx) =
     ascii ''https://picsum.photos/seed/'' @ intToString (imageId E g idx) @ ascii ''/400/600'' \<and>
   coverTitle (generateCoverImage E g t a idx) =
     (if length t \<le> 25 then t else take 25 t @ ascii ''...'') \<and>
   coverAuthor (generateCoverImage E g t a idx) =
     (if length a \<le> 20 then a else take 20 a @ ascii ''...'') \<and>
   (generateBook E g idx s = Inr (b, s') \<longrightarrow>
      authors b \<noteq> [] \<and>
      coverImage b = generateCoverImage E g (title b) (hd (authors b)) idx)"
proof -
  have a: "imageId E g idx = jsRem (uniqueSeed E g idx) 1000"
    by (simp add: imageId_def uniqueSeed_def)
  have b: "coverTitle (generateCoverImage E g t a idx) =
     (if length t \<le> 25 then t else take 25 t @ ascii ''...'')"
    by (simp add: generateCoverImage_def Let_def)
  have c: "coverAuthor (generateCoverImage E g t a idx) =
     (if length a \<le> 20 then a else take 20 a @ ascii ''...'')"
    by (simp add: generateCoverImage_def Let_def)
  have d: "- 999 \<le> imageId E g idx \<and> imageId E g idx \<le> 999"
    unfolding a by (rule jsRem_bounds)
  have e: "0 \<le> uniqueSeed E g idx \<longrightarrow> 0 \<le> imageId E g idx"
    unfolding a using jsRem_nonneg [of "uniqueSeed E g idx"] by simp
  have f: "uniqueSeed E g idx < 0 \<longrightarrow> imageId E g idx \<le> 0"
    unfolding a using jsRem_neg [of "uniqueSeed E g idx"] by simp
  have h: "\<bar>baseSeed g\<bar> + 2 ^ 31 + \<bar>idx\<bar> \<le> 2 ^ 53 \<longrightarrow>
      uniqueSeed E g idx = baseSeed g + hashParameters E g + idx"
    using uniqueSeed_exact [of g idx E] by blast
  have i: "\<bar>baseSeed g\<bar> + 2 ^ 31 + \<bar>idx\<bar> \<le> 2 ^ 53 \<and> 0 \<le> baseSeed g + hashParameters E g + idx \<longrightarrow>
      imageId E g idx = (baseSeed g + hashParameters E g + idx) mod 1000 \<and>
      0 \<le> imageId E g idx"
    using uniqueSeed_exact [of g idx E] jsRem_nonneg [of "baseSeed g + hashParameters E g + idx"]
    by (auto simp: a)
  from a b c d e f h i cover_url [of E g t a idx] generateBook_cover [of E g idx s b s']
  show ?thesis by blast
qed

theorem cover_image_descriptor_witness:
  "imageId demoEnv (newGenerator (ascii ''en-US'') 42 5 2) 1 = 274 \<and>
   coverTitle (generateCoverImage demoEnv (newGenerator (ascii ''en-US'') 42 5 2)
       (ascii ''The Extraordinary Adventures of Nobody'') (ascii ''Ada Lovelace'') 1)
     = ascii ''The Extraordinary Adventu...'' \<and>
   coverAuthor (generateCoverImage demoEnv (newGenerator (ascii ''en-US'') 42 5 2)
       (ascii ''The Extraordinary Adventures of Nobody'') (ascii ''Ada Lovelace'') 1)
     = ascii ''Ada Lovelace''"
proof -
  let ?g = "newGenerator (ascii ''en-US'') 42 5 2"
  let ?t = "ascii ''The Extraordinary Adventures of Nobody''"
  let ?a = "ascii ''Ada Lovelace''"
  have sum: "baseSeed ?g + hashParameters demoEnv ?g + 1 = 65817274"
    by (simp add: demo_hashParameters newGenerator_sel)
  have small: "\<bar>baseSeed ?g\<bar> + 2 ^ 31 + \<bar>1\<bar> \<le> (2 ^ 53 :: int)"
    by (simp add: newGenerator_sel)
  note c7 = cover_image_descriptor [of demoEnv ?g 1 ?t ?a]
  from c7 small sum have a: "imageId demoEnv ?g 1 = 274"
    by (auto simp: jsRem_def)
  from c7 have "coverTitle (generateCoverImage demoEnv ?g ?t ?a 1) =
      (if length ?t \<le> 25 then ?t else take 25 ?t @ ascii ''...'')" by blast
  then have b: "coverTitle (generateCoverImage demoEnv ?g ?t ?a 1) =
      ascii ''The Extraordinary Adventu...''" by (simp add: ascii_def)
  from c7 have "coverAuthor (generateCoverImage demoEnv ?g ?t ?a 1) =
      (if length ?a \<le> 20 then ?a else take 20 ?a @ ascii ''...'')" by blast
  then have c: "coverAuthor (generateCoverImage demoEnv ?g ?t ?a 1) = ?a"
    by (simp add: ascii_def)
  from a b c show ?thesis by simp
qed

text \<open>
  A seed below \<open>- 2 ^ 31\<close> makes the sum, and with it the identifier, negative; and for the
  seed \<open>2 ^ 53 - 1\<close> the additions round, so that the identifier is 224 where the exact
  sum ends in 223.
\<close>

theorem cover_image_id_negative_counterexample:
  "imageId demoEnv (newGenerator (ascii ''en-US'') (- 3000000000) 5 2) 1 = - 768 \<and>
   imageId demoEnv (newGenerator (ascii ''en-US'') 9007199254740991 5 2) 1 = 224"
  by (simp add: imageId_def demo_hashParameters jsRem_def newGenerator_sel numAdd_def
      roundToDouble_def spacing_small spacing_next)

section \<open>Locale fallback\<close>

lemma not_supported_undefined:
  assumes "loc \<notin> set supportedLocales" and "loc \<notin> set objectPrototypeKeys"
  shows "getProperty titleTemplates loc = Undefined" and "getProperty reviewsTable loc = Undefined"
  using assms
  by (auto simp: getProperty_def titleTemplates_def reviewsTable_def supportedLocales_def)

lemma enUS_own:
  "getProperty titleTemplates (ascii ''en-US'') = Own enUS_templates"
  "localeTable titleTemplates (ascii ''en-US'') = Inr enUS_templates"
  by (simp_all add: localeTable_def getProperty_def titleTemplates_def)

lemma enUS_reviews_own:
  "\<exists>t. getProperty reviewsTable (ascii ''en-US'') = Own t"
  by (simp add: getProperty_def reviewsTable_def)

lemma fallback_titles:
  assumes "loc \<notin> set supportedLocales" and "loc \<notin> set objectPrototypeKeys"
  shows "localeTable titleTemplates loc = Inr enUS_templates"
  using not_supported_undefined(1) [OF assms] enUS_own(1) by (simp add: localeTable_def)

lemma fallback_reviews:
  assumes "loc \<notin> set supportedLocales" and "loc \<notin> set objectPrototypeKeys"
  shows "localeTable reviewsTable loc = localeTable reviewsTable (ascii ''en-US'')"
  using not_supported_undefined(2) [OF assms] enUS_reviews_own
  by (auto simp: localeTable_def)

lemma corpusFor_enUS:
  "corpusFor (ascii ''en-US'') t =
     (case t of positive \<Rightarrow> enUS_positive | neutral \<Rightarrow> enUS_neutral | negative \<Rightarrow> enUS_negative)"
  by (simp add: corpusFor_def localeTable_def getProperty_def reviewsTable_def)

text \<open>
  Claim C8, as amended. For a locale string that is neither a supported locale nor the
  name of a property that every object inherits, title generation uses the en-US
  templates and review-text generation the en-US corpora; and \<open>generateBook\<close> returns a
  record for it when the integer draws stay in their ranges and the date formatter
  accepts the string as a locale tag.
\<close>

theorem locale_fallback:
  assumes "locale' g \<notin> set supportedLocales" and "locale' g \<notin> set objectPrototypeKeys"
  shows "localeTable titleTemplates (locale' g) = Inr enUS_templates \<and>
         generateBookTitle E g s = generateBookTitle E (g\<lparr>locale' := ascii ''en-US''\<rparr>) s \<and>
         generateReviewText E g t s = generateReviewText E (g\<lparr>locale' := ascii ''en-US''\<rparr>) t s \<and>
         corpusFor (locale' g) t =
           (case t of positive \<Rightarrow> enUS_positive | neutral \<Rightarrow> enUS_neutral
            | negative \<Rightarrow> enUS_negative) \<and>
         (intsInRange E \<and> formatsLocale E (locale' g) \<longrightarrow>
            (\<exists>b s'. generateBook E g idx s = Inr (b, s') \<and> index b = idx))"
proof -
  note ft = fallback_titles [OF assms]
  note fr = fallback_reviews [OF assms]
  have a: "generateBookTitle E g s = generateBookTitle E (g\<lparr>locale' := ascii ''en-US''\<rparr>) s"
    by (simp add: generateBookTitle_def ft enUS_own(2))
  have b: "generateReviewText E g t s = generateReviewText E (g\<lparr>locale' := ascii ''en-US''\<rparr>) t s"
    by (simp add: generateReviewText_def fr)
  have c: "corpusFor (locale' g) t =
           (case t of positive \<Rightarrow> enUS_positive | neutral \<Rightarrow> enUS_neutral
            | negative \<Rightarrow> enUS_negative)"
    using corpusFor_enUS [of t] by (simp add: corpusFor_def fr)
  have en: "ascii ''en-US'' \<in> set supportedLocales" by (simp add: supportedLocales_def)
  have tt: "\<exists>t. localeTable titleTemplates (locale' g) = Inr t" using ft by simp
  have rt: "\<exists>t. localeTable reviewsTable (locale' g) = Inr t"
    using localeTable_reviews_supported [OF en] fr by simp
  have d: "intsInRange E \<and> formatsLocale E (locale' g) \<longrightarrow>
            (\<exists>b s'. generateBook E g idx s = Inr (b, s') \<and> index b = idx)"
  proof
    assume h: "intsInRange E \<and> formatsLocale E (locale' g)"
    then have i: "intsInRange E" and f: "formatsLocale E (locale' g)" by simp_all
    from generateBook_succeeds [OF i tt rt f]
    show "\<exists>b s'. generateBook E g idx s = Inr (b, s') \<and> index b = idx" .
  qed
  from ft a b c d show ?thesis by blast
qed

theorem locale_fallback_witness:
  "localeTable titleTemplates (ascii ''fr-FR'') = Inr enUS_templates \<and>
   corpusFor (ascii ''fr-FR'') negative = enUS_negative \<and>
   (\<exists>b s'. generateBook demoEnv (newGenerator (ascii ''fr-FR'') 42 5 2) 1 0 = Inr (b, s') \<and>
      index b = 1)"
proof -
  let ?g = "newGenerator (ascii ''fr-FR'') 42 5 2"
  have a: "locale' ?g \<notin> set supportedLocales"
    by (simp add: newGenerator_sel supportedLocales_def ascii_def)
  have b: "locale' ?g \<notin> set objectPrototypeKeys"
    by (simp add: newGenerator_sel objectPrototypeKeys_def ascii_def)
  have c: "formatsLocale demoEnv (locale' ?g)"
    by (rule demo_formats) (simp add: newGenerator_sel ascii_def)
  from locale_fallback [OF a b, of demoEnv 0 negative 1] demo_intsInRange c show ?thesis
    by (simp add: newGenerator_sel)
qed

lemma inherited_key:
  "getProperty titleTemplates (ascii ''constructor'') = Inherited"
  "getProperty reviewsTable (ascii ''constructor'') = Inherited"
  by (simp_all add: getProperty_def titleTemplates_def reviewsTable_def objectPrototypeKeys_def
      ascii_def)

lemma generateBook_title_fails:
  "generateBookTitle E g (setSeedForIndex E g idx s) = Inl e \<Longrightarrow> generateBook E g idx s = Inl e"
  by (simp add: generateBook_def)

text \<open>
  The locale string \<open>constructor\<close> names an inherited property: the lookup finds it, no
  fallback happens, and title generation, review-text generation and \<open>generateBook\<close>
  fail.
\<close>

theorem locale_fallback_counterexample:
  "generateBookTitle demoEnv (newGenerator (ascii ''constructor'') 42 5 2) 0 = Inl NotATable \<and>
   generateReviewText demoEnv (newGenerator (ascii ''constructor'') 42 5 2) positive 0
     = Inl NotATable \<and>
   generateBook demoEnv (newGenerator (ascii ''constructor'') 42 5 2) 1 0 = Inl NotATable"
proof -
  let ?g = "newGenerator (ascii ''constructor'') 42 5 2"
  have a: "generateBookTitle demoEnv ?g s = Inl NotATable" for s
    by (simp add: generateBookTitle_def localeTable_def newGenerator_sel inherited_key)
  have b: "generateReviewText demoEnv ?g positive 0 = Inl NotATable"
    by (simp add: generateReviewText_def localeTable_def newGenerator_sel inherited_key)
  from a b generateBook_title_fails [of demoEnv ?g 1 0 NotATable] show ?thesis by simp
qed

text \<open>
  A locale string that the date formatter rejects makes \<open>generateBook\<close> fail as soon as
  one review is generated: the title and the review text fall back to en-US, the date
  does not.
\<close>

lemma nextReview_rejected_tag:
  assumes rej: "\<forall>d. toLocaleDateString E (locale' g) d = Inl RangeError"
    and rt: "\<exists>t. localeTable reviewsTable (locale' g) = Inr t"
  shows "nextReview E g n s = Inl RangeError"
proof -
  obtain t s1 where a: "determineReviewSentiment E n s = (t, s1)"
    by (cases "determineReviewSentiment E n s")
  obtain v s2 where b: "generateRatingFromSentiment E t s1 = (v, s2)"
    by (cases "generateRatingFromSentiment E t s1")
  from rt obtain body s3 where c: "generateReviewText E g t s2 = Inr (body, s3)"
    by (auto simp: generateReviewText_def) (metis surj_pair)
  obtain u s4 where d: "internetUsername E s3 = (u, s4)" by (cases "internetUsername E s3")
  obtain dt s5 where e: "dateBetween E (ascii ''2020-01-01'') (ascii ''2024-12-31'') s4 = (dt, s5)"
    by (cases "dateBetween E (ascii ''2020-01-01'') (ascii ''2024-12-31'') s4")
  from rej have f: "toLocaleDateString E (locale' g) dt = Inl RangeError" by blast
  show ?thesis by (simp add: nextReview_def a b c d e f)
qed

lemma generateBook_rejected_tag:
  assumes rej: "\<forall>d. toLocaleDateString E (locale' g) d = Inl RangeError"
    and tt: "\<exists>t. localeTable titleTemplates (locale' g) = Inr t"
    and rt: "\<exists>t. localeTable reviewsTable (locale' g) = Inr t"
    and whole: "avgReviews g \<in> \<int>" and pos: "1 \<le> avgReviews g"
  shows "generateBook E g idx s = Inl RangeError"
proof -
  define s0 where "s0 = setSeedForIndex E g idx s"
  from generateBookTitle_succeeds [OF tt] obtain ttl s1 where
    a: "generateBookTitle E g s0 = Inr (ttl, s1)" by (metis surj_pair)
  obtain na s2 where b: "numberInt E 1 3 s1 = (na, s2)" by (cases "numberInt E 1 3 s1")
  obtain as s3 where c: "authorLoop E g (nat na) s2 = (as, s3)"
    by (cases "authorLoop E g (nat na) s2")
  obtain co s4 where d: "companyName E s3 = (co, s4)" by (cases "companyName E s3")
  obtain pt s5 where e: "arrayElement E publisherTypes s4 = (pt, s5)"
    by (cases "arrayElement E publisherTypes s4")
  obtain dt s6 where f: "dateBetween E (ascii ''1945-01-01'') (ascii ''2025-08-04'') s5 = (dt, s6)"
    by (cases "dateBetween E (ascii ''1945-01-01'') (ascii ''2025-08-04'') s5")
  obtain lk s7 where h: "generateExactCount E (avgLikes g) s6 = (lk, s7)"
    by (cases "generateExactCount E (avgLikes g) s6")
  from whole have "avgReviews g - real_of_int \<lfloor>avgReviews g\<rfloor> = 0" by (auto simp: Ints_def)
  with pos have i: "generateExactCount E (avgReviews g) s7 = (\<lfloor>avgReviews g\<rfloor>, s7)"
    by (simp add: generateExactCount_def Let_def)
  from pos have "1 \<le> \<lfloor>avgReviews g\<rfloor>" by linarith
  then obtain k where k: "nat \<lfloor>avgReviews g\<rfloor> = Suc k"
    by (cases "nat \<lfloor>avgReviews g\<rfloor>") auto
  have j: "reviewLoop E g lk (nat \<lfloor>avgReviews g\<rfloor>) s7 = Inl RangeError"
    unfolding k by (simp add: nextReview_rejected_tag [OF rej rt])
  show ?thesis
    unfolding generateBook_def s0_def [symmetric]
    by (simp add: a b c d e f h i j)
qed

lemma generateBook_malformed_tag:
  "generateBook demoEnv (newGenerator (ascii ''en_US'') 42 5 2) 1 0 = Inl RangeError"
proof -
  let ?g = "newGenerator (ascii ''en_US'') 42 5 2"
  have a: "locale' ?g \<notin> set supportedLocales"
    by (simp add: newGenerator_sel supportedLocales_def ascii_def)
  have b: "locale' ?g \<notin> set objectPrototypeKeys"
    by (simp add: newGenerator_sel objectPrototypeKeys_def ascii_def)
  have en: "ascii ''en-US'' \<in> set supportedLocales" by (simp add: supportedLocales_def)
  have tt: "\<exists>t. localeTable titleTemplates (locale' ?g) = Inr t"
    using fallback_titles [OF a b] by simp
  have rt: "\<exists>t. localeTable reviewsTable (locale' ?g) = Inr t"
    using localeTable_reviews_supported [OF en] fallback_reviews [OF a b] by simp
  have rej: "\<forall>d. toLocaleDateString demoEnv (locale' ?g) d = Inl RangeError"
    by (simp add: demoEnv_def newGenerator_sel ascii_def)
  show ?thesis
    by (rule generateBook_rejected_tag [OF rej tt rt]) (simp_all add: newGenerator_sel)
qed

end
